theory Spec2Isabelle
  imports Main "HOL-Library.Word"
begin

section \<open>Constants of \<^verbatim>\<open>uadk_rsa.c\<close> and \<^verbatim>\<open>uadk_async.h\<close>\<close>

text \<open>
  C \<^verbatim>\<open>int\<close> values are modelled as \<^typ>\<open>int\<close>: the functions below only compare them
  with constants, so no arithmetic can wrap. The \<^verbatim>\<open>errno\<close> numbers are those of Linux.
\<close>

definition RSA_MIN_MODULUS_BITS :: int where "RSA_MIN_MODULUS_BITS = 512"
definition RSA1024BITS :: int where "RSA1024BITS = 1024"
definition RSA2048BITS :: int where "RSA2048BITS = 2048"
definition RSA3072BITS :: int where "RSA3072BITS = 3072"
definition RSA4096BITS :: int where "RSA4096BITS = 4096"
definition OPENSSLRSA7680BITS :: int where "OPENSSLRSA7680BITS = 7680"
definition OPENSSLRSA15360BITS :: int where "OPENSSLRSA15360BITS = 15360"
definition SOFT :: int where "SOFT = 2"
definition UADK_E_SUCCESS :: int where "UADK_E_SUCCESS = 1"
definition UADK_E_FAIL :: int where "UADK_E_FAIL = 0"
definition UADK_DO_SOFT :: int where "UADK_DO_SOFT = - 224"
definition UADK_E_POLL_SUCCESS :: int where "UADK_E_POLL_SUCCESS = 0"
definition EAGAIN :: int where "EAGAIN = 11"
definition ENOMEM :: int where "ENOMEM = 12"
definition EBUSY :: int where "EBUSY = 16"
definition ASYNC_QUEUE_TASK_NUM :: nat where "ASYNC_QUEUE_TASK_NUM = 1024"

section \<open>Key-size gate\<close>

text \<open>
  \<^verbatim>\<open>rsa_check_bit_useful(bits, flen)\<close>: the first guard is \<^verbatim>\<open>!flen && flen > bits\<close>,
  then the lower bound, then the \<^verbatim>\<open>switch\<close> with its cases in source order.
\<close>

definition rsa_check_bit_useful :: "int \<Rightarrow> int \<Rightarrow> int" where
  "rsa_check_bit_useful bits flen =
     (if flen = 0 \<and> flen > bits then SOFT
      else if bits < RSA_MIN_MODULUS_BITS then UADK_E_FAIL
      else if bits = RSA1024BITS \<or> bits = RSA2048BITS \<or> bits = RSA3072BITS
              \<or> bits = RSA4096BITS then UADK_E_SUCCESS
      else if bits = OPENSSLRSA7680BITS \<or> bits = OPENSSLRSA15360BITS
              \<or> bits = RSA_MIN_MODULUS_BITS then SOFT
      else SOFT)"

text \<open>
  An \<^verbatim>\<open>RSA *\<close> is \<open>None\<close> when null; of the key only \<^verbatim>\<open>RSA_bits(rsa)\<close> is read here.
  A buffer pointer is \<open>None\<close> when null, else its address.
\<close>

record rsa_st =
  RSA_bits :: int

type_synonym addr = nat

text \<open>\<^verbatim>\<open>check_rsa_input_para(flen, from, to, rsa)\<close>; \<^verbatim>\<open>RSA_bits\<close> is read only past the null test.\<close>

definition check_rsa_input_para ::
  "int \<Rightarrow> addr option \<Rightarrow> addr option \<Rightarrow> rsa_st option \<Rightarrow> int" where
  "check_rsa_input_para flen frm to rsa =
     (case rsa of
        None \<Rightarrow> UADK_E_FAIL
      | Some r \<Rightarrow>
          if frm = None \<or> to = None \<or> flen \<le> 0 then UADK_E_FAIL
          else rsa_check_bit_useful (RSA_bits r) flen)"

section \<open>The slot pool of \<^verbatim>\<open>uadk_async.h\<close>\<close>

text \<open>
  \<^verbatim>\<open>struct async_op\<close>. The fields are prefixed with \<open>op_\<close>; \<^verbatim>\<open>job\<close> is \<open>None\<close> when the
  pointer is null, else the address of the \<^verbatim>\<open>ASYNC_JOB\<close>.
\<close>

record async_op =
  op_job :: "addr option"
  op_done :: int
  op_idx :: int
  op_ret :: int

text \<open>
  \<^verbatim>\<open>struct async_poll_queue\<close>: the occupancy array \<^verbatim>\<open>status[ASYNC_QUEUE_TASK_NUM]\<close>, the two
  cursors, the receive flag and the two semaphores as their counts. The task array
  \<^verbatim>\<open>head\<close>, the mutex and the thread id are not read by anything modelled here.
\<close>

record async_poll_queue =
  status :: "int list"
  sid :: nat
  rid :: nat
  is_recv :: bool
  empty_sem :: nat
  full_sem :: nat

text \<open>The number of occupied slots.\<close>

definition occupancy :: "async_poll_queue \<Rightarrow> nat" where
  "occupancy q = length (filter (\<lambda>v. v \<noteq> 0) (status q))"

text \<open>
  Modelled from the spec: the body of \<^verbatim>\<open>async_get_free_task\<close> lives in \<^verbatim>\<open>uadk_async.c\<close>,
  which is not among the sources; only its declaration is. The spec's contract is
  "returns the next free slot in circular order; fails with EXHAUSTED if no slot is
  currently free". \<open>find_free st i n\<close> inspects at most \<open>n\<close> slots, starting at cursor \<open>i\<close>
  and wrapping at \<^const>\<open>ASYNC_QUEUE_TASK_NUM\<close>.
\<close>

fun find_free :: "int list \<Rightarrow> nat \<Rightarrow> nat \<Rightarrow> nat option" where
  "find_free st i 0 = None"
| "find_free st i (Suc n) =
     (if i < length st \<and> st ! i = 0 then Some i
      else find_free st ((i + 1) mod ASYNC_QUEUE_TASK_NUM) n)"

text \<open>
  Modelled from the spec: \<^verbatim>\<open>async_get_free_task(&id)\<close>, absent from the sources. \<open>None\<close> is
  the spec's EXHAUSTED (the C function returns 0, which is what \<^verbatim>\<open>rsa_do_crypto\<close> tests);
  \<open>Some i\<close> is the slot written to \<^verbatim>\<open>*id\<close>. The slot is marked occupied and the
  next-submit cursor moves past it.
\<close>

definition async_get_free_task :: "async_poll_queue \<Rightarrow> nat option \<times> async_poll_queue" where
  "async_get_free_task q =
     (case find_free (status q) (sid q) ASYNC_QUEUE_TASK_NUM of
        None \<Rightarrow> (None, q)
      | Some i \<Rightarrow>
          (Some i, q\<lparr>status := (status q)[i := 1],
                     sid := (i + 1) mod ASYNC_QUEUE_TASK_NUM\<rparr>))"

text \<open>
  Modelled from the spec: \<^verbatim>\<open>async_free_poll_task(id, is_cb)\<close>, absent from the sources. The
  spec's contract is "idempotent; marks the slot free", "freeing an already-free slot is
  a no-op, not an error", and "releasing from the completion callback path must also
  signal the Flow-Control Gate that a submission slot became available". So an occupied
  slot is marked free, and when the release comes from the callback the gate's count of
  free slots is raised for the slot that became available; a slot that is already free is
  left alone, gate included. An index outside the array names no slot.
\<close>

definition async_free_poll_task :: "int \<Rightarrow> bool \<Rightarrow> async_poll_queue \<Rightarrow> async_poll_queue" where
  "async_free_poll_task idx is_cb q =
     (if 0 \<le> idx \<and> nat idx < length (status q) \<and> status q ! nat idx \<noteq> 0
      then q\<lparr>status := (status q)[nat idx := 0],
             empty_sem := (if is_cb then empty_sem q + 1 else empty_sem q)\<rparr>
      else q)"

text \<open>
  Submitters and the poll thread touch the pool under its mutex, so a concurrent run is a
  sequence of pool operations.
\<close>

datatype pool_op = Acquire | Release int bool

fun pool_step :: "pool_op \<Rightarrow> async_poll_queue \<Rightarrow> async_poll_queue" where
  "pool_step Acquire q = snd (async_get_free_task q)"
| "pool_step (Release idx is_cb) q = async_free_poll_task idx is_cb q"

fun pool_run :: "pool_op list \<Rightarrow> async_poll_queue \<Rightarrow> async_poll_queue" where
  "pool_run [] q = q"
| "pool_run (x # xs) q = pool_run xs (pool_step x q)"

text \<open>A pool with every slot free, and the cursors at the first slot.\<close>

definition empty_queue :: async_poll_queue where
  "empty_queue = \<lparr>status = replicate ASYNC_QUEUE_TASK_NUM 0, sid = 0, rid = 0,
                   is_recv = False, empty_sem = ASYNC_QUEUE_TASK_NUM, full_sem = 0\<rparr>"

section \<open>The request and its completion callback\<close>

text \<open>
  \<^verbatim>\<open>struct uadk_e_cb_info\<close> holds two pointers: \<^verbatim>\<open>priv\<close> (the submitter's request) and
  \<^verbatim>\<open>op\<close> (the submitter's \<^verbatim>\<open>async_op\<close>). Of \<^verbatim>\<open>struct wd_rsa_req\<close> the engine's control
  flow reads and writes \<^verbatim>\<open>status\<close>, \<^verbatim>\<open>cb\<close> and \<^verbatim>\<open>cb_param\<close>.
\<close>

record uadk_e_cb_info =
  cb_priv :: "addr option"
  cb_op :: "addr option"

datatype cb_fn = Uadk_e_rsa_cb

record wd_rsa_req =
  req_status :: int
  req_cb :: "cb_fn option"
  req_cb_param :: "uadk_e_cb_info option"

text \<open>
  What the callback can reach: the requests and the suspension contexts by address, the
  pool, and the jobs handed to \<^verbatim>\<open>async_wake_job\<close>, oldest first.
\<close>

record cb_world =
  reqs :: "addr \<Rightarrow> wd_rsa_req"
  ops :: "addr \<Rightarrow> async_op"
  pool :: async_poll_queue
  woken :: "addr list"

text \<open>\<^verbatim>\<open>uadk_e_rsa_cb(req_t)\<close>: three null tests, the status copy, then the guarded completion.\<close>

definition uadk_e_rsa_cb :: "wd_rsa_req option \<Rightarrow> cb_world \<Rightarrow> cb_world" where
  "uadk_e_rsa_cb req_t w =
     (case req_t of
        None \<Rightarrow> w
      | Some req_new \<Rightarrow>
          (case req_cb_param req_new of
             None \<Rightarrow> w
           | Some cb_param \<Rightarrow>
               (case cb_priv cb_param of
                  None \<Rightarrow> w
                | Some req_origin \<Rightarrow>
                    let w1 = w\<lparr>reqs := (reqs w)
                                (req_origin := (reqs w req_origin)
                                   \<lparr>req_status := req_status req_new\<rparr>)\<rparr>
                    in (case cb_op cb_param of
                          None \<Rightarrow> w1
                        | Some a \<Rightarrow>
                            (case op_job (ops w1 a) of
                               None \<Rightarrow> w1
                             | Some j \<Rightarrow>
                                 if op_done (ops w1 a) = 0
                                 then w1\<lparr>ops := (ops w1)(a := (ops w1 a)\<lparr>op_done := 1\<rparr>),
                                        pool := async_free_poll_task
                                                  (op_idx (ops w1 a)) True (pool w1),
                                        woken := woken w1 @ [j]\<rparr>
                                 else w1)))))"

text \<open>The callback fired for each request of a list, in order.\<close>

fun cb_run :: "wd_rsa_req option list \<Rightarrow> cb_world \<Rightarrow> cb_world" where
  "cb_run [] w = w"
| "cb_run (r # rs) w = cb_run rs (uadk_e_rsa_cb r w)"

section \<open>The drain function\<close>

text \<open>
  \<^verbatim>\<open>uadk_e_rsa_poll\<close>: \<open>poll k\<close> is what the \<open>k\<close>-th call of
  \<^verbatim>\<open>wd_rsa_poll_ctx(CTX_ASYNC, expt, &recv)\<close> returns and the value it leaves in
  \<^verbatim>\<open>recv\<close> (a \<^verbatim>\<open>__u32\<close>; \<^verbatim>\<open>expt\<close> is 1). The loop has no counter, so it is a partial
  function: \<open>None\<close> means it never returns. The result is the returned status and the
  number of calls made.
\<close>

partial_function (option) rsa_poll_loop ::
  "(nat \<Rightarrow> int \<times> 32 word) \<Rightarrow> nat \<Rightarrow> (int \<times> nat) option" where
  "rsa_poll_loop poll k =
     (if 1 \<le> snd (poll k) then Some (UADK_E_POLL_SUCCESS, Suc k)
      else if fst (poll k) < 0 \<and> fst (poll k) \<noteq> - EAGAIN then Some (fst (poll k), Suc k)
      else if fst (poll k) = - EAGAIN then rsa_poll_loop poll (Suc k)
      else Some (fst (poll k), Suc k))"

definition uadk_e_rsa_poll :: "(nat \<Rightarrow> int \<times> 32 word) \<Rightarrow> (int \<times> nat) option" where
  "uadk_e_rsa_poll poll = rsa_poll_loop poll 0"

section \<open>The submitter\<close>

text \<open>
  The calls \<^verbatim>\<open>rsa_do_crypto\<close> makes to the async layer and to the hardware library, as a
  trace: what is observable of a run besides its return value, the request and the pool.
\<close>

datatype call =
    Setup_async_event_notification
  | Wd_do_rsa_sync
  | Get_free_task
  | Wd_do_rsa_async
  | Free_poll_task int bool
  | Pause_job int
  | Clear_async_event_notification

record hw_state =
  req :: wd_rsa_req
  queue :: async_poll_queue
  calls :: "call list"

text \<open>
  What the collaborators of one run of \<^verbatim>\<open>rsa_do_crypto\<close> answer. They are outside the
  sources, so every theorem below holds for all their answers:
  \<^item> \<open>setup_ret\<close>, \<open>setup_op\<close>: the return value of
    \<^verbatim>\<open>async_setup_async_event_notification(&op)\<close> and the \<^verbatim>\<open>op\<close> it leaves;
  \<^item> \<open>op_addr\<close>, \<open>req_addr\<close>: the addresses \<^verbatim>\<open>&op\<close> and \<^verbatim>\<open>&(rsa_sess->req)\<close>;
  \<^item> \<open>sync_ret\<close>, \<open>sync_status\<close>: the return value of \<^verbatim>\<open>wd_do_rsa_sync\<close> and the
    \<^verbatim>\<open>req.status\<close> it leaves;
  \<^item> \<open>async_ret k\<close>: the return value of the \<open>k\<close>-th call of \<^verbatim>\<open>wd_do_rsa_async\<close>;
  \<^item> \<open>pause_ret\<close>, \<open>pause_status\<close>, \<open>pause_queue\<close>: the return value of
    \<^verbatim>\<open>async_pause_job\<close>, and the \<^verbatim>\<open>req.status\<close> and the pool once the job runs again.
\<close>

record crypto_env =
  setup_ret :: int
  setup_op :: async_op
  op_addr :: addr
  req_addr :: addr
  sync_ret :: int
  sync_status :: int
  async_ret :: "nat \<Rightarrow> int"
  pause_ret :: int
  pause_status :: int
  pause_queue :: "async_poll_queue \<Rightarrow> async_poll_queue"

definition log_call :: "call \<Rightarrow> hw_state \<Rightarrow> hw_state" where
  "log_call c s = s\<lparr>calls := calls s @ [c]\<rparr>"

text \<open>
  The \<^verbatim>\<open>do ... while (ret == -EBUSY)\<close> loop around \<^verbatim>\<open>wd_do_rsa_async\<close>. It has no counter,
  so it is a partial function: \<open>None\<close> means it never leaves. It leaves with the last
  status (fatal, or not negative) and the number of submissions made.
\<close>

partial_function (option) wd_do_rsa_async_retry ::
  "(nat \<Rightarrow> int) \<Rightarrow> nat \<Rightarrow> (int \<times> nat) option" where
  "wd_do_rsa_async_retry wd k =
     (if wd k < 0 \<and> wd k \<noteq> - EBUSY then Some (wd k, Suc k)
      else if wd k = - EBUSY then wd_do_rsa_async_retry wd (Suc k)
      else Some (wd k, Suc k))"

text \<open>The label \<^verbatim>\<open>err\<close> of \<^verbatim>\<open>rsa_do_crypto\<close>.\<close>

definition rsa_do_crypto_err :: "hw_state \<Rightarrow> (int \<times> hw_state) option" where
  "rsa_do_crypto_err s = Some (UADK_E_FAIL, log_call Clear_async_event_notification s)"

text \<open>The asynchronous half of \<^verbatim>\<open>rsa_do_crypto\<close>, from the registration of the callback on.\<close>

definition rsa_do_crypto_async :: "crypto_env \<Rightarrow> hw_state \<Rightarrow> (int \<times> hw_state) option" where
  "rsa_do_crypto_async e s1 =
     (let s2 = s1\<lparr>req := (req s1)
                  \<lparr>req_status := - 1, req_cb := Some Uadk_e_rsa_cb,
                   req_cb_param := Some \<lparr>cb_priv = Some (req_addr e),
                                         cb_op = Some (op_addr e)\<rparr>\<rparr>\<rparr>;
          s3 = log_call Get_free_task s2
      in case async_get_free_task (queue s3) of
           (None, q) \<Rightarrow> rsa_do_crypto_err (s3\<lparr>queue := q\<rparr>)
         | (Some i, q) \<Rightarrow>
             (case wd_do_rsa_async_retry (async_ret e) 0 of
                None \<Rightarrow> None
              | Some (r, n) \<Rightarrow>
                  let s4 = s3\<lparr>queue := q, calls := calls s3 @ replicate n Wd_do_rsa_async\<rparr>
                  in if r < 0 \<and> r \<noteq> - EBUSY
                     then rsa_do_crypto_err
                            (log_call (Free_poll_task (int i) False)
                               (s4\<lparr>queue := async_free_poll_task (int i) False (queue s4)\<rparr>))
                     else
                       let s5 = log_call (Pause_job (int i))
                                  (s4\<lparr>queue := pause_queue e (queue s4),
                                      req := (req s4)\<lparr>req_status := pause_status e\<rparr>\<rparr>)
                       in if pause_ret e = 0 then rsa_do_crypto_err s5
                          else if req_status (req s5) \<noteq> 0 then Some (UADK_E_FAIL, s5)
                          else Some (UADK_E_SUCCESS, s5)))"

text \<open>\<^verbatim>\<open>rsa_do_crypto(rsa_sess)\<close>: the result is the return value and the state it leaves.\<close>

definition rsa_do_crypto :: "crypto_env \<Rightarrow> hw_state \<Rightarrow> (int \<times> hw_state) option" where
  "rsa_do_crypto e s =
     (let s1 = log_call Setup_async_event_notification s
      in if setup_ret e = 0 then Some (UADK_E_FAIL, s1)
         else if op_job (setup_op e) = None
         then (let s2 = log_call Wd_do_rsa_sync
                          (s1\<lparr>req := (req s1)\<lparr>req_status := sync_status e\<rparr>\<rparr>)
               in if sync_ret e = 0 then Some (UADK_E_SUCCESS, s2)
                  else rsa_do_crypto_err s2)
         else rsa_do_crypto_async e s1)"

section \<open>The five RSA methods\<close>

text \<open>
  The helpers between the input check and \<^verbatim>\<open>rsa_do_crypto\<close>, and after it, work on
  OpenSSL big numbers and paddings. Of each the methods test only the result, which is a
  field here; a pointer result is the flag "it is null". One field serves the public-key
  and the private-key variant of a helper, since no method calls both.
\<close>

record hw_steps =
  init_ret :: int
  alloc_ret :: int
  sess_null :: bool
  primes_gen_ret :: int
  bn_copy_null :: bool
  fill_keygen_ret :: int
  get_keygen_param_ret :: int
  create_bn_ctx_ret :: int
  to_bn_null :: bool
  num_bytes :: int
  add_padding_ret :: int
  from_bn_null :: bool
  fill_key_ret :: int
  dst_bn_null :: bool
  get_res_ret :: int
  bn2binpad_ret :: int
  check_padding_ret :: int

text \<open>
  A method either returns a value computed on the hardware path, or reaches its label
  \<^verbatim>\<open>exe_soft\<close> and hands the unchanged arguments to the OpenSSL software method.
\<close>

datatype outcome = Returned int | Exe_soft

text \<open>The common tail: the frees, then \<^verbatim>\<open>if (ret != UADK_DO_SOFT) return ret;\<close>, then \<^verbatim>\<open>exe_soft\<close>.\<close>

definition hw_tail :: "int \<Rightarrow> hw_state \<Rightarrow> (outcome \<times> hw_state) option" where
  "hw_tail r s = (if r \<noteq> UADK_DO_SOFT then Some (Returned r, s) else Some (Exe_soft, s))"

text \<open>
  \<^verbatim>\<open>rsa_new_eng_session\<close> clears the session with \<^verbatim>\<open>memset\<close>, so every method submits a
  request whose status and callback fields are zero.
\<close>

definition new_session :: "hw_state \<Rightarrow> hw_state" where
  "new_session s = s\<lparr>req := \<lparr>req_status = 0, req_cb = None, req_cb_param = None\<rparr>\<rparr>"

definition uadk_e_rsa_keygen ::
  "int \<Rightarrow> hw_steps \<Rightarrow> crypto_env \<Rightarrow> hw_state \<Rightarrow> (outcome \<times> hw_state) option" where
  "uadk_e_rsa_keygen bits h e s =
     (let key_size = rsa_check_bit_useful bits 0
      in if key_size = 0 \<or> key_size = SOFT then Some (Exe_soft, s)
         else if init_ret h \<noteq> 0 then Some (Exe_soft, s)
         else if alloc_ret h = - ENOMEM then Some (Exe_soft, s)
         else if sess_null h then hw_tail UADK_DO_SOFT s
         else if primes_gen_ret h = 0 then hw_tail UADK_DO_SOFT s
         else if bn_copy_null h then hw_tail UADK_DO_SOFT s
         else if fill_keygen_ret h = 0 then hw_tail UADK_DO_SOFT s
         else (case rsa_do_crypto e (new_session s) of
                 None \<Rightarrow> None
               | Some (r, s') \<Rightarrow>
                   if r = 0 \<or> req_status (req s') \<noteq> 0 then hw_tail UADK_DO_SOFT s'
                   else if get_keygen_param_ret h = 0 then hw_tail UADK_DO_SOFT s'
                   else hw_tail (get_keygen_param_ret h) s'))"

definition uadk_e_rsa_public_encrypt ::
  "int \<Rightarrow> addr option \<Rightarrow> addr option \<Rightarrow> rsa_st option \<Rightarrow> hw_steps \<Rightarrow> crypto_env
     \<Rightarrow> hw_state \<Rightarrow> (outcome \<times> hw_state) option" where
  "uadk_e_rsa_public_encrypt flen frm to rsa h e s =
     (let ret = check_rsa_input_para flen frm to rsa
      in if ret = 0 \<or> ret = SOFT then Some (Exe_soft, s)
         else if init_ret h \<noteq> 0 then Some (Exe_soft, s)
         else if alloc_ret h = - ENOMEM then Some (Exe_soft, s)
         else if sess_null h then hw_tail UADK_DO_SOFT s
         else if create_bn_ctx_ret h = 0 then hw_tail UADK_DO_SOFT s
         else if flen > num_bytes h then hw_tail UADK_DO_SOFT s
         else if add_padding_ret h = 0 then hw_tail UADK_DO_SOFT s
         else if fill_key_ret h = 0 then hw_tail UADK_DO_SOFT s
         else (case rsa_do_crypto e (new_session s) of
                 None \<Rightarrow> None
               | Some (r, s') \<Rightarrow>
                   if r = 0 \<or> req_status (req s') \<noteq> 0 then hw_tail UADK_DO_SOFT s'
                   else if dst_bn_null h then hw_tail UADK_DO_SOFT s'
                   else if bn2binpad_ret h = - 1 then hw_tail UADK_DO_SOFT s'
                   else hw_tail (bn2binpad_ret h) s'))"

definition uadk_e_rsa_private_decrypt ::
  "int \<Rightarrow> addr option \<Rightarrow> addr option \<Rightarrow> rsa_st option \<Rightarrow> hw_steps \<Rightarrow> crypto_env
     \<Rightarrow> hw_state \<Rightarrow> (outcome \<times> hw_state) option" where
  "uadk_e_rsa_private_decrypt flen frm to rsa h e s =
     (let ret = check_rsa_input_para flen frm to rsa
      in if ret = 0 \<or> ret = SOFT then Some (Exe_soft, s)
         else if init_ret h \<noteq> 0 then Some (Exe_soft, s)
         else if alloc_ret h = - ENOMEM then Some (Exe_soft, s)
         else if sess_null h then hw_tail UADK_DO_SOFT s
         else if create_bn_ctx_ret h = 0 then hw_tail UADK_DO_SOFT s
         else if flen > num_bytes h then hw_tail UADK_DO_SOFT s
         else if fill_key_ret h = 0 then hw_tail UADK_DO_SOFT s
         else (case rsa_do_crypto e (new_session s) of
                 None \<Rightarrow> None
               | Some (r, s') \<Rightarrow>
                   if r = 0 \<or> req_status (req s') \<noteq> 0 then hw_tail UADK_DO_SOFT s'
                   else if dst_bn_null h then hw_tail UADK_DO_SOFT s'
                   else if bn2binpad_ret h = 0 then hw_tail UADK_DO_SOFT s'
                   else if check_padding_ret h = 0 then hw_tail UADK_DO_SOFT s'
                   else hw_tail (check_padding_ret h) s'))"

definition uadk_e_rsa_private_sign ::
  "int \<Rightarrow> addr option \<Rightarrow> addr option \<Rightarrow> rsa_st option \<Rightarrow> hw_steps \<Rightarrow> crypto_env
     \<Rightarrow> hw_state \<Rightarrow> (outcome \<times> hw_state) option" where
  "uadk_e_rsa_private_sign flen frm to rsa h e s =
     (let ret = check_rsa_input_para flen frm to rsa
      in if ret = 0 \<or> ret = SOFT then Some (Exe_soft, s)
         else if init_ret h \<noteq> 0 then Some (Exe_soft, s)
         else if alloc_ret h = - ENOMEM then Some (Exe_soft, s)
         else if sess_null h then hw_tail UADK_DO_SOFT s
         else if create_bn_ctx_ret h = 0 then hw_tail UADK_DO_SOFT s
         else if to_bn_null h then hw_tail UADK_DO_SOFT s
         else if flen > num_bytes h then hw_tail UADK_DO_SOFT s
         else if add_padding_ret h = 0 then hw_tail UADK_DO_SOFT s
         else if from_bn_null h then hw_tail UADK_DO_SOFT s
         else if fill_key_ret h = 0 then hw_tail UADK_DO_SOFT s
         else (case rsa_do_crypto e (new_session s) of
                 None \<Rightarrow> None
               | Some (r, s') \<Rightarrow>
                   if r = 0 \<or> req_status (req s') \<noteq> 0 then hw_tail UADK_DO_SOFT s'
                   else if dst_bn_null h then hw_tail UADK_DO_SOFT s'
                   else if get_res_ret h = 0 then hw_tail UADK_DO_SOFT s'
                   else hw_tail (bn2binpad_ret h) s'))"

definition uadk_e_rsa_public_verify ::
  "int \<Rightarrow> addr option \<Rightarrow> addr option \<Rightarrow> rsa_st option \<Rightarrow> hw_steps \<Rightarrow> crypto_env
     \<Rightarrow> hw_state \<Rightarrow> (outcome \<times> hw_state) option" where
  "uadk_e_rsa_public_verify flen frm to rsa h e s =
     (let ret = check_rsa_input_para flen frm to rsa
      in if ret = 0 then Some (Returned UADK_E_FAIL, s)
         else if ret = SOFT then Some (Exe_soft, s)
         else if init_ret h \<noteq> 0 then Some (Exe_soft, s)
         else if alloc_ret h = - ENOMEM then Some (Exe_soft, s)
         else if sess_null h then hw_tail UADK_DO_SOFT s
         else if create_bn_ctx_ret h = 0 then hw_tail UADK_DO_SOFT s
         else if to_bn_null h then hw_tail UADK_DO_SOFT s
         else if from_bn_null h then hw_tail UADK_DO_SOFT s
         else if fill_key_ret h = 0 then hw_tail UADK_DO_SOFT s
         else (case rsa_do_crypto e (new_session s) of
                 None \<Rightarrow> None
               | Some (r, s') \<Rightarrow>
                   if r = 0 \<or> req_status (req s') \<noteq> 0 then hw_tail UADK_DO_SOFT s'
                   else if dst_bn_null h then hw_tail UADK_DO_SOFT s'
                   else if get_res_ret h = 0 then hw_tail UADK_DO_SOFT s'
                   else if bn2binpad_ret h = 0 then hw_tail UADK_DO_SOFT s'
                   else if check_padding_ret h = 0 then hw_tail UADK_DO_SOFT s'
                   else hw_tail (check_padding_ret h) s'))"

text \<open>
  The method table that \<^verbatim>\<open>uadk_e_get_rsa_hw_methods\<close> fills: \<^verbatim>\<open>keygen\<close>, \<^verbatim>\<open>pub_enc\<close>,
  \<^verbatim>\<open>priv_dec\<close>, \<^verbatim>\<open>priv_enc\<close> (sign) and \<^verbatim>\<open>pub_dec\<close> (verify), with the arguments of a call.
\<close>

datatype rsa_meth = Keygen | Pub_enc | Priv_dec | Priv_enc | Pub_dec

record rsa_args =
  arg_bits :: int
  arg_flen :: int
  arg_from :: "addr option"
  arg_to :: "addr option"
  arg_rsa :: "rsa_st option"

fun rsa_hw_meth ::
  "rsa_meth \<Rightarrow> rsa_args \<Rightarrow> hw_steps \<Rightarrow> crypto_env \<Rightarrow> hw_state
     \<Rightarrow> (outcome \<times> hw_state) option" where
  "rsa_hw_meth Keygen a = uadk_e_rsa_keygen (arg_bits a)"
| "rsa_hw_meth Pub_enc a =
     uadk_e_rsa_public_encrypt (arg_flen a) (arg_from a) (arg_to a) (arg_rsa a)"
| "rsa_hw_meth Priv_dec a =
     uadk_e_rsa_private_decrypt (arg_flen a) (arg_from a) (arg_to a) (arg_rsa a)"
| "rsa_hw_meth Priv_enc a =
     uadk_e_rsa_private_sign (arg_flen a) (arg_from a) (arg_to a) (arg_rsa a)"
| "rsa_hw_meth Pub_dec a =
     uadk_e_rsa_public_verify (arg_flen a) (arg_from a) (arg_to a) (arg_rsa a)"

text \<open>The check each method makes first: the value that decides whether hardware is tried.\<close>

fun rsa_meth_check :: "rsa_meth \<Rightarrow> rsa_args \<Rightarrow> int" where
  "rsa_meth_check Keygen a = rsa_check_bit_useful (arg_bits a) 0"
| "rsa_meth_check m a = check_rsa_input_para (arg_flen a) (arg_from a) (arg_to a) (arg_rsa a)"

text \<open>
  The suspension context a callback invocation reaches: none when one of the three null
  tests of \<^verbatim>\<open>uadk_e_rsa_cb\<close> returns early, else the pointer \<^verbatim>\<open>cb_param->op\<close>.
\<close>

definition cb_context :: "wd_rsa_req option \<Rightarrow> addr option" where
  "cb_context req_t =
     (case req_t of
        None \<Rightarrow> None
      | Some req_new \<Rightarrow>
          (case req_cb_param req_new of
             None \<Rightarrow> None
           | Some cb_param \<Rightarrow>
               (case cb_priv cb_param of None \<Rightarrow> None | Some req_origin \<Rightarrow> cb_op cb_param)))"

section \<open>Concrete runs\<close>

text \<open>A pool with every slot occupied.\<close>

definition full_queue :: async_poll_queue where
  "full_queue = \<lparr>status = replicate ASYNC_QUEUE_TASK_NUM 1, sid = 0, rid = 0,
                  is_recv = False, empty_sem = 0, full_sem = 0\<rparr>"

text \<open>
  The \<^verbatim>\<open>op\<close> that the notification setup leaves for a caller running inside an
  \<^verbatim>\<open>ASYNC_JOB\<close> (at address 7), and for a caller outside any job.
\<close>

definition job_op :: async_op where
  "job_op = \<lparr>op_job = Some 7, op_done = 0, op_idx = 0, op_ret = 0\<rparr>"

definition no_job_op :: async_op where
  "no_job_op = \<lparr>op_job = None, op_done = 0, op_idx = 0, op_ret = 0\<rparr>"

text \<open>
  Hardware that answers busy twice and then rejects the request (\<^verbatim>\<open>-EINVAL\<close>), and
  hardware that answers busy forever.
\<close>

definition busy_then_fatal :: "nat \<Rightarrow> int" where
  "busy_then_fatal k = (if k < 2 then - EBUSY else - 22)"

definition always_busy :: "nat \<Rightarrow> int" where
  "always_busy k = - EBUSY"

definition keep_queue :: "async_poll_queue \<Rightarrow> async_poll_queue" where
  "keep_queue q = q"

definition fatal_env :: crypto_env where
  "fatal_env = \<lparr>setup_ret = 1, setup_op = job_op, op_addr = 1, req_addr = 2,
                 sync_ret = 0, sync_status = 0, async_ret = busy_then_fatal,
                 pause_ret = 1, pause_status = 0, pause_queue = keep_queue\<rparr>"

definition busy_env :: crypto_env where
  "busy_env = \<lparr>setup_ret = 1, setup_op = job_op, op_addr = 1, req_addr = 2,
                sync_ret = 0, sync_status = 0, async_ret = always_busy,
                pause_ret = 1, pause_status = 0, pause_queue = keep_queue\<rparr>"

text \<open>A caller outside any job: once the synchronous call succeeds, once it fails.\<close>

definition sync_ok_env :: crypto_env where
  "sync_ok_env = \<lparr>setup_ret = 1, setup_op = no_job_op, op_addr = 1, req_addr = 2,
                   sync_ret = 0, sync_status = 0, async_ret = always_busy,
                   pause_ret = 1, pause_status = 0, pause_queue = keep_queue\<rparr>"

definition sync_fail_env :: crypto_env where
  "sync_fail_env = \<lparr>setup_ret = 1, setup_op = no_job_op, op_addr = 1, req_addr = 2,
                     sync_ret = - 22, sync_status = 0, async_ret = always_busy,
                     pause_ret = 1, pause_status = 0, pause_queue = keep_queue\<rparr>"

definition idle_state :: hw_state where
  "idle_state = \<lparr>req = \<lparr>req_status = 0, req_cb = None, req_cb_param = None\<rparr>,
                  queue = empty_queue, calls = []\<rparr>"

text \<open>
  A parked caller: its context at address 1 holds job 7 and slot 5, its request is at
  address 2, and the hardware hands the callback a request that points at both.
\<close>

definition parked_op :: async_op where
  "parked_op = \<lparr>op_job = Some 7, op_done = 0, op_idx = 5, op_ret = 0\<rparr>"

definition blank_req :: wd_rsa_req where
  "blank_req = \<lparr>req_status = - 1, req_cb = None, req_cb_param = None\<rparr>"

definition all_parked :: "addr \<Rightarrow> async_op" where
  "all_parked a = parked_op"

definition all_blank :: "addr \<Rightarrow> wd_rsa_req" where
  "all_blank a = blank_req"

definition parked_world :: cb_world where
  "parked_world = \<lparr>reqs = all_blank, ops = all_parked, pool = full_queue, woken = []\<rparr>"

definition finished_req :: "wd_rsa_req option" where
  "finished_req = Some \<lparr>req_status = 0, req_cb = Some Uadk_e_rsa_cb,
                         req_cb_param = Some \<lparr>cb_priv = Some 2, cb_op = Some 1\<rparr>\<rparr>"

text \<open>
  Answers of \<^verbatim>\<open>wd_rsa_poll_ctx\<close>: status 0 with nothing received; a negative status
  together with one completion; and empty twice, then one completion.
\<close>

definition poll_zero_nothing :: "nat \<Rightarrow> int \<times> 32 word" where
  "poll_zero_nothing k = (0, 0)"

definition poll_error_with_one :: "nat \<Rightarrow> int \<times> 32 word" where
  "poll_error_with_one k = (- 22, 1)"

definition poll_empty_twice :: "nat \<Rightarrow> int \<times> 32 word" where
  "poll_empty_twice k = (if k < 2 then (- EAGAIN, 0) else (0, 1))"

definition poll_empty_then_fatal :: "nat \<Rightarrow> int \<times> 32 word" where
  "poll_empty_then_fatal k = (if k < 2 then (- EAGAIN, 0) else (- 22, 0))"

text \<open>Every helper succeeds; a 2048-bit key with a 16-byte input; the same key with no input.\<close>

definition steps_ok :: hw_steps where
  "steps_ok = \<lparr>init_ret = 0, alloc_ret = 1, sess_null = False, primes_gen_ret = 1,
                bn_copy_null = False, fill_keygen_ret = 1, get_keygen_param_ret = 1,
                create_bn_ctx_ret = 1, to_bn_null = False, num_bytes = 256,
                add_padding_ret = 1, from_bn_null = False, fill_key_ret = 1,
                dst_bn_null = False, get_res_ret = 1, bn2binpad_ret = 256,
                check_padding_ret = 16\<rparr>"



definition args_7680 :: rsa_args where
  "args_7680 = \<lparr>arg_bits = 7680, arg_flen = 16, arg_from = Some 100, arg_to = Some 200,
                 arg_rsa = Some \<lparr>RSA_bits = 7680\<rparr>\<rparr>"

section \<open>Results on the key-size gate\<close>

lemmas rsa_consts =
  RSA_MIN_MODULUS_BITS_def RSA1024BITS_def RSA2048BITS_def RSA3072BITS_def
  RSA4096BITS_def OPENSSLRSA7680BITS_def OPENSSLRSA15360BITS_def SOFT_def
  UADK_E_SUCCESS_def UADK_E_FAIL_def UADK_DO_SOFT_def

lemma rsa_check_bit_useful_success_iff:
  "rsa_check_bit_useful bits flen = UADK_E_SUCCESS
     \<longleftrightarrow> bits = 1024 \<or> bits = 2048 \<or> bits = 3072 \<or> bits = 4096"
  by (auto simp: rsa_check_bit_useful_def rsa_consts)

lemma rsa_check_bit_useful_soft:
  "512 \<le> bits \<Longrightarrow> bits \<noteq> 1024 \<Longrightarrow> bits \<noteq> 2048 \<Longrightarrow> bits \<noteq> 3072 \<Longrightarrow> bits \<noteq> 4096 \<Longrightarrow>
   rsa_check_bit_useful bits flen = SOFT"
  by (simp add: rsa_check_bit_useful_def rsa_consts)

lemma rsa_check_bit_useful_small:
  "bits < 512 \<Longrightarrow>
   rsa_check_bit_useful bits flen = (if flen = 0 \<and> bits < 0 then SOFT else UADK_E_FAIL)"
  by (simp add: rsa_check_bit_useful_def rsa_consts)

lemma rsa_check_bit_useful_range:
  "rsa_check_bit_useful bits flen = UADK_E_FAIL \<or> rsa_check_bit_useful bits flen = UADK_E_SUCCESS
   \<or> rsa_check_bit_useful bits flen = SOFT"
  by (simp add: rsa_check_bit_useful_def)

lemma check_rsa_input_para_range:
  "check_rsa_input_para flen frm to rsa = UADK_E_FAIL
   \<or> check_rsa_input_para flen frm to rsa = UADK_E_SUCCESS
   \<or> check_rsa_input_para flen frm to rsa = SOFT"
  using rsa_check_bit_useful_range
  by (simp add: check_rsa_input_para_def split: option.splits)

lemma rsa_meth_check_range:
  "rsa_meth_check m a = UADK_E_FAIL \<or> rsa_meth_check m a = UADK_E_SUCCESS
   \<or> rsa_meth_check m a = SOFT"
  using rsa_check_bit_useful_range check_rsa_input_para_range by (cases m) simp_all

section \<open>Results on the slot pool\<close>

lemma find_free_Some:
  "find_free st i n = Some j \<Longrightarrow> j < length st \<and> st ! j = 0"
  by (induction n arbitrary: i) (auto split: if_splits)

lemma find_free_None_iff:
  "i < ASYNC_QUEUE_TASK_NUM \<Longrightarrow>
   find_free st i n = None \<longleftrightarrow>
     (\<forall>k<n. \<not> ((i + k) mod ASYNC_QUEUE_TASK_NUM < length st
                \<and> st ! ((i + k) mod ASYNC_QUEUE_TASK_NUM) = 0))"
proof (induction n arbitrary: i)
  case 0
  show ?case by simp
next
  case (Suc n)
  let ?N = ASYNC_QUEUE_TASK_NUM
  have N: "0 < ?N" by (simp add: ASYNC_QUEUE_TASK_NUM_def)
  have step: "(i + 1) mod ?N < ?N" using N by simp
  have shift: "(Suc i mod ?N + k) mod ?N = Suc (i + k) mod ?N" for k
    by (simp add: mod_add_left_eq)
  have split_all: "(\<forall>k<Suc n. Q k) \<longleftrightarrow> Q 0 \<and> (\<forall>k<n. Q (Suc k))" for Q
    by (metis less_Suc_eq_0_disj)
  show ?case
    using Suc.prems Suc.IH [OF step]
    by (simp add: split_all shift)
qed

lemma circular_cover:
  assumes "i < ASYNC_QUEUE_TASK_NUM" "j < ASYNC_QUEUE_TASK_NUM"
  shows "\<exists>k<ASYNC_QUEUE_TASK_NUM. (i + k) mod ASYNC_QUEUE_TASK_NUM = j"
proof -
  let ?N = ASYNC_QUEUE_TASK_NUM
  let ?k = "(j + ?N - i) mod ?N"
  have "0 < ?N" using assms by simp
  then have "?k < ?N" by simp
  moreover have "(i + ?k) mod ?N = (i + (j + ?N - i)) mod ?N"
    by (simp add: mod_add_right_eq)
  then have "(i + ?k) mod ?N = j" using assms by simp
  ultimately show ?thesis by blast
qed

lemma find_free_exhausted_iff:
  assumes "length st = ASYNC_QUEUE_TASK_NUM" "i < ASYNC_QUEUE_TASK_NUM"
  shows "find_free st i ASYNC_QUEUE_TASK_NUM = None \<longleftrightarrow> (\<forall>j<length st. st ! j \<noteq> 0)"
proof
  assume none: "find_free st i ASYNC_QUEUE_TASK_NUM = None"
  show "\<forall>j<length st. st ! j \<noteq> 0"
  proof (intro allI impI)
    fix j assume j: "j < length st"
    then obtain k where k: "k < ASYNC_QUEUE_TASK_NUM" "(i + k) mod ASYNC_QUEUE_TASK_NUM = j"
      using circular_cover [of i j] assms by auto
    from none k j show "st ! j \<noteq> 0"
      using find_free_None_iff [OF assms(2), of st ASYNC_QUEUE_TASK_NUM] by auto
  qed
next
  assume "\<forall>j<length st. st ! j \<noteq> 0"
  then show "find_free st i ASYNC_QUEUE_TASK_NUM = None"
    using find_free_None_iff [OF assms(2), of st ASYNC_QUEUE_TASK_NUM] by auto
qed

lemma occupancy_full_iff:
  "occupancy q = length (status q) \<longleftrightarrow> (\<forall>j<length (status q). status q ! j \<noteq> 0)"
  unfolding occupancy_def
  by (metis (mono_tags, lifting) filter_id_conv length_filter_less nat_neq_iff in_set_conv_nth)

lemma occupied_count_update:
  "i < length st \<Longrightarrow> st ! i = 0 \<Longrightarrow>
   length (filter (\<lambda>v. v \<noteq> 0) (st[i := 1])) = Suc (length (filter (\<lambda>v. v \<noteq> (0::int)) st))"
proof (induction st arbitrary: i)
  case Nil
  then show ?case by simp
next
  case (Cons x xs)
  then show ?case by (cases i) auto
qed


lemma get_free_task_wf:
  assumes "length (status q) = ASYNC_QUEUE_TASK_NUM" "sid q < ASYNC_QUEUE_TASK_NUM"
  shows "length (status (snd (async_get_free_task q))) = ASYNC_QUEUE_TASK_NUM
         \<and> sid (snd (async_get_free_task q)) < ASYNC_QUEUE_TASK_NUM"
  using assms
  by (auto simp: async_get_free_task_def ASYNC_QUEUE_TASK_NUM_def split: option.splits)

lemma free_poll_task_wf:
  assumes "length (status q) = ASYNC_QUEUE_TASK_NUM" "sid q < ASYNC_QUEUE_TASK_NUM"
  shows "length (status (async_free_poll_task i cb q)) = ASYNC_QUEUE_TASK_NUM
         \<and> sid (async_free_poll_task i cb q) < ASYNC_QUEUE_TASK_NUM"
  using assms by (simp add: async_free_poll_task_def)

lemma pool_run_wf:
  "length (status q) = ASYNC_QUEUE_TASK_NUM \<Longrightarrow> sid q < ASYNC_QUEUE_TASK_NUM \<Longrightarrow>
   length (status (pool_run xs q)) = ASYNC_QUEUE_TASK_NUM
   \<and> sid (pool_run xs q) < ASYNC_QUEUE_TASK_NUM"
proof (induction xs arbitrary: q)
  case Nil
  then show ?case by simp
next
  case (Cons x xs)
  have "length (status (pool_step x q)) = ASYNC_QUEUE_TASK_NUM
        \<and> sid (pool_step x q) < ASYNC_QUEUE_TASK_NUM"
    using Cons.prems get_free_task_wf free_poll_task_wf by (cases x) simp_all
  then show ?case using Cons.IH by simp
qed

lemma get_free_task_exhausted_iff:
  assumes "length (status q) = ASYNC_QUEUE_TASK_NUM" "sid q < ASYNC_QUEUE_TASK_NUM"
  shows "fst (async_get_free_task q) = None \<longleftrightarrow> occupancy q = ASYNC_QUEUE_TASK_NUM"
proof -
  have "fst (async_get_free_task q) = None
          \<longleftrightarrow> find_free (status q) (sid q) ASYNC_QUEUE_TASK_NUM = None"
    by (simp add: async_get_free_task_def split: option.splits)
  also have "\<dots> \<longleftrightarrow> (\<forall>j<length (status q). status q ! j \<noteq> 0)"
    using find_free_exhausted_iff [OF assms] .
  also have "\<dots> \<longleftrightarrow> occupancy q = length (status q)"
    using occupancy_full_iff [of q] by simp
  finally show ?thesis using assms by simp
qed

lemma get_free_task_None_unchanged:
  "fst (async_get_free_task q) = None \<Longrightarrow> async_get_free_task q = (None, q)"
  by (simp add: async_get_free_task_def split: option.splits)

lemma get_free_task_Some:
  assumes "async_get_free_task q = (Some i, q')"
  shows "i < length (status q) \<and> status q ! i = 0 \<and> occupancy q' = occupancy q + 1"
proof -
  from assms have ff: "find_free (status q) (sid q) ASYNC_QUEUE_TASK_NUM = Some i"
    and q': "status q' = (status q)[i := 1]"
    by (auto simp: async_get_free_task_def split: option.splits)
  from find_free_Some [OF ff] have i: "i < length (status q)" "status q ! i = 0" by auto
  then show ?thesis using q' occupied_count_update [of i "status q"]
    by (simp add: occupancy_def)
qed

lemma free_slot_noop:
  "status q ! nat i = 0 \<Longrightarrow> async_free_poll_task i cb q = q"
  by (simp add: async_free_poll_task_def)

lemma released_slot_is_free:
  "\<not> (0 \<le> i \<and> nat i < length (status (async_free_poll_task i cb q))
        \<and> status (async_free_poll_task i cb q) ! nat i \<noteq> 0)"
  by (simp add: async_free_poll_task_def)

lemma free_unoccupied_noop:
  "\<not> (0 \<le> i \<and> nat i < length (status q) \<and> status q ! nat i \<noteq> 0) \<Longrightarrow>
   async_free_poll_task i cb q = q"
  by (auto simp: async_free_poll_task_def)

lemma release_after_release:
  "async_free_poll_task i cb' (async_free_poll_task i cb q) = async_free_poll_task i cb q"
  using released_slot_is_free [of i cb q] by (rule free_unoccupied_noop)

lemma find_free_hit:
  "0 < n \<Longrightarrow> i < length st \<Longrightarrow> st ! i = 0 \<Longrightarrow> find_free st i n = Some i"
  by (cases n) simp_all

lemma get_free_task_empty_queue:
  "async_get_free_task empty_queue
     = (Some 0, empty_queue\<lparr>status := (status empty_queue)[0 := 1], sid := 1\<rparr>)"
proof -
  have N: "0 < ASYNC_QUEUE_TASK_NUM" "Suc 0 mod ASYNC_QUEUE_TASK_NUM = 1"
    by (simp_all add: ASYNC_QUEUE_TASK_NUM_def)
  have "find_free (replicate ASYNC_QUEUE_TASK_NUM 0) 0 ASYNC_QUEUE_TASK_NUM = Some 0"
    using N(1) by (intro find_free_hit) simp_all
  then show ?thesis using N(2) by (simp add: async_get_free_task_def empty_queue_def)
qed

lemma full_queue_exhausted: "fst (async_get_free_task full_queue) = None"
proof -
  have "find_free (status full_queue) (sid full_queue) ASYNC_QUEUE_TASK_NUM = None"
  proof (rule find_free_exhausted_iff [THEN iffD2])
    show "length (status full_queue) = ASYNC_QUEUE_TASK_NUM" by (simp add: full_queue_def)
    show "sid full_queue < ASYNC_QUEUE_TASK_NUM"
      by (simp add: full_queue_def ASYNC_QUEUE_TASK_NUM_def)
    show "\<forall>j<length (status full_queue). status full_queue ! j \<noteq> 0"
      by (simp add: full_queue_def)
  qed
  then show ?thesis by (simp add: async_get_free_task_def)
qed

lemma occupancy_empty_queue: "occupancy empty_queue = 0"
  by (simp add: occupancy_def empty_queue_def)

lemma occupancy_full_queue: "occupancy full_queue = 1024"
  by (simp add: occupancy_def full_queue_def ASYNC_QUEUE_TASK_NUM_def)

text \<open>
  Claim C7. The pool has \<^const>\<open>ASYNC_QUEUE_TASK_NUM\<close> = 1024 slots and never grows: after
  any sequence of acquisitions and releases on a pool of that size the occupancy array
  still has 1024 entries, so at most 1024 slots are occupied at once. Acquisition fails
  exactly when no slot is free, leaving the pool as it was, and a successful acquisition
  hands out a slot that was free and raises the occupancy by one.
\<close>

theorem slot_pool_bounded:
  assumes "length (status q) = ASYNC_QUEUE_TASK_NUM" and "sid q < ASYNC_QUEUE_TASK_NUM"
  shows "ASYNC_QUEUE_TASK_NUM = 1024
     \<and> length (status (pool_run xs q)) = 1024
     \<and> occupancy (pool_run xs q) \<le> 1024
     \<and> (fst (async_get_free_task (pool_run xs q)) = None
          \<longleftrightarrow> occupancy (pool_run xs q) = 1024)
     \<and> (occupancy (pool_run xs q) = 1024
          \<longrightarrow> async_get_free_task (pool_run xs q) = (None, pool_run xs q))
     \<and> (\<forall>i q'. async_get_free_task (pool_run xs q) = (Some i, q')
          \<longrightarrow> i < 1024 \<and> status (pool_run xs q) ! i = 0
              \<and> occupancy q' = occupancy (pool_run xs q) + 1)"
proof -
  let ?q = "pool_run xs q"
  have N: "ASYNC_QUEUE_TASK_NUM = 1024" by (simp add: ASYNC_QUEUE_TASK_NUM_def)
  have wf: "length (status ?q) = ASYNC_QUEUE_TASK_NUM" "sid ?q < ASYNC_QUEUE_TASK_NUM"
    using pool_run_wf [OF assms] by auto
  have occ: "occupancy ?q \<le> length (status ?q)" by (simp add: occupancy_def)
  have ex: "fst (async_get_free_task ?q) = None \<longleftrightarrow> occupancy ?q = ASYNC_QUEUE_TASK_NUM"
    using get_free_task_exhausted_iff [OF wf] .
  have full: "occupancy ?q = ASYNC_QUEUE_TASK_NUM \<longrightarrow> async_get_free_task ?q = (None, ?q)"
    using ex get_free_task_None_unchanged by blast
  have some: "\<forall>i q'. async_get_free_task ?q = (Some i, q')
          \<longrightarrow> i < length (status ?q) \<and> status ?q ! i = 0 \<and> occupancy q' = occupancy ?q + 1"
    using get_free_task_Some by blast
  show ?thesis using N wf(1) occ ex full some by simp
qed

theorem slot_pool_bounded_witness:
  "length (status (pool_run [Acquire, Acquire, Release 0 True, Acquire] empty_queue)) = 1024
   \<and> occupancy (pool_run [Acquire, Acquire, Release 0 True, Acquire] empty_queue) \<le> 1024
   \<and> occupancy (pool_run [] full_queue) = 1024
   \<and> async_get_free_task (pool_run [] full_queue) = (None, pool_run [] full_queue)
   \<and> async_get_free_task (pool_run [] empty_queue)
        = (Some 0, empty_queue\<lparr>status := (status empty_queue)[0 := 1], sid := 1\<rparr>)
   \<and> occupancy (empty_queue\<lparr>status := (status empty_queue)[0 := 1], sid := 1\<rparr>)
        = occupancy (pool_run [] empty_queue) + 1"
proof -
  have e1: "length (status empty_queue) = ASYNC_QUEUE_TASK_NUM"
    by (simp add: empty_queue_def)
  have e2: "sid empty_queue < ASYNC_QUEUE_TASK_NUM"
    by (simp add: empty_queue_def ASYNC_QUEUE_TASK_NUM_def)
  have f1: "length (status full_queue) = ASYNC_QUEUE_TASK_NUM"
    by (simp add: full_queue_def)
  have f2: "sid full_queue < ASYNC_QUEUE_TASK_NUM"
    by (simp add: full_queue_def ASYNC_QUEUE_TASK_NUM_def)
  have full: "occupancy (pool_run [] full_queue) = 1024"
    using occupancy_full_queue by simp
  have got: "async_get_free_task (pool_run [] empty_queue)
        = (Some 0, empty_queue\<lparr>status := (status empty_queue)[0 := 1], sid := 1\<rparr>)"
    using get_free_task_empty_queue by simp
  show ?thesis
    using slot_pool_bounded [OF e1 e2, of "[Acquire, Acquire, Release 0 True, Acquire]"]
      slot_pool_bounded [OF f1 f2, of "[]"] slot_pool_bounded [OF e1 e2, of "[]"] full got
    by blast
qed

text \<open>
  Claim C8. Releasing a slot twice leaves the whole queue (occupancy array, cursors and
  gate counters) as one release does, whether the two releases come from the callback,
  from the error unwind, or one from each. Releasing a slot that is already free changes
  nothing at all.
\<close>

theorem free_poll_task_idempotent:
  "async_free_poll_task i cb (async_free_poll_task i cb q) = async_free_poll_task i cb q
   \<and> async_free_poll_task i cb' (async_free_poll_task i cb q) = async_free_poll_task i cb q
   \<and> occupancy (async_free_poll_task i cb (async_free_poll_task i cb q))
       = occupancy (async_free_poll_task i cb q)
   \<and> (status q ! nat i = 0 \<longrightarrow> async_free_poll_task i cb q = q)"
proof -
  have twice: "async_free_poll_task i c (async_free_poll_task i cb q)
                 = async_free_poll_task i cb q" for c
    by (rule release_after_release)
  have free: "status q ! nat i = 0 \<longrightarrow> async_free_poll_task i cb q = q"
    using free_slot_noop by blast
  show ?thesis using twice free by simp
qed

theorem free_poll_task_idempotent_witness:
  "status empty_queue ! nat 3 = 0
   \<and> async_free_poll_task 3 True empty_queue = empty_queue
   \<and> async_free_poll_task 3 False empty_queue = empty_queue
   \<and> empty_sem (async_free_poll_task 5 True full_queue) = 1
   \<and> status (async_free_poll_task 5 True full_queue) ! 5 = 0
   \<and> async_free_poll_task 5 True (async_free_poll_task 5 True full_queue)
       = async_free_poll_task 5 True full_queue
   \<and> async_free_poll_task 5 True (async_free_poll_task 5 False full_queue)
       = async_free_poll_task 5 False full_queue"
proof -
  have h: "status empty_queue ! nat 3 = 0"
    by (simp add: empty_queue_def ASYNC_QUEUE_TASK_NUM_def)
  have occupied: "0 \<le> (5::int) \<and> nat 5 < length (status full_queue)
                  \<and> status full_queue ! nat 5 \<noteq> 0"
    by (simp add: full_queue_def ASYNC_QUEUE_TASK_NUM_def)
  have once: "empty_sem (async_free_poll_task 5 True full_queue) = 1
              \<and> status (async_free_poll_task 5 True full_queue) ! 5 = 0"
    using occupied by (simp add: async_free_poll_task_def full_queue_def)
  show ?thesis
    using h once free_poll_task_idempotent [of 3 True empty_queue]
      free_poll_task_idempotent [of 3 False empty_queue]
      free_poll_task_idempotent [of 5 True full_queue True]
      free_poll_task_idempotent [of 5 False full_queue True]
    by simp
qed

section \<open>Results on the completion callback\<close>

lemma cb_no_context:
  "cb_context r = None \<Longrightarrow>
   ops (uadk_e_rsa_cb r w) = ops w \<and> pool (uadk_e_rsa_cb r w) = pool w
   \<and> woken (uadk_e_rsa_cb r w) = woken w"
  by (auto simp: cb_context_def uadk_e_rsa_cb_def Let_def split: option.splits)

lemma cb_already_done:
  "cb_context r = Some a \<Longrightarrow> op_done (ops w a) \<noteq> 0 \<or> op_job (ops w a) = None \<Longrightarrow>
   ops (uadk_e_rsa_cb r w) = ops w \<and> pool (uadk_e_rsa_cb r w) = pool w
   \<and> woken (uadk_e_rsa_cb r w) = woken w"
  by (auto simp: cb_context_def uadk_e_rsa_cb_def Let_def split: option.splits)

lemma cb_first_completion:
  "cb_context r = Some a \<Longrightarrow> op_done (ops w a) = 0 \<Longrightarrow> op_job (ops w a) = Some j \<Longrightarrow>
   ops (uadk_e_rsa_cb r w) = (ops w)(a := (ops w a)\<lparr>op_done := 1\<rparr>)
   \<and> pool (uadk_e_rsa_cb r w) = async_free_poll_task (op_idx (ops w a)) True (pool w)
   \<and> woken (uadk_e_rsa_cb r w) = woken w @ [j]"
  by (auto simp: cb_context_def uadk_e_rsa_cb_def Let_def split: option.splits)

lemma cb_run_already_done:
  "\<forall>r\<in>set rs. cb_context r = None \<or> cb_context r = Some a \<Longrightarrow>
   op_done (ops w a) \<noteq> 0 \<or> op_job (ops w a) = None \<Longrightarrow>
   ops (cb_run rs w) = ops w \<and> pool (cb_run rs w) = pool w \<and> woken (cb_run rs w) = woken w"
proof (induction rs arbitrary: w)
  case Nil
  then show ?case by simp
next
  case (Cons r rs)
  have one: "ops (uadk_e_rsa_cb r w) = ops w \<and> pool (uadk_e_rsa_cb r w) = pool w
             \<and> woken (uadk_e_rsa_cb r w) = woken w"
    using Cons.prems cb_no_context [of r w] cb_already_done [of r a w] by auto
  then have "op_done (ops (uadk_e_rsa_cb r w) a) \<noteq> 0 \<or> op_job (ops (uadk_e_rsa_cb r w) a) = None"
    using Cons.prems(2) by simp
  with Cons.IH [of "uadk_e_rsa_cb r w"] Cons.prems(1) one show ?case by simp
qed

text \<open>
  Claim C2. However many times the callback fires for requests that reach one suspension
  context: if the context has a job and is not done, then after at least one invocation
  its done flag is 1, no other context changed, its slot was released once from the
  callback and its job was woken once; if the context is already done, or has no job, no
  invocation changes any context, the pool or the list of woken jobs.
\<close>

theorem uadk_e_rsa_cb_exactly_once:
  assumes "\<forall>r\<in>set rs. cb_context r = Some a"
  shows "(rs \<noteq> [] \<and> op_done (ops w a) = 0 \<and> op_job (ops w a) = Some j \<longrightarrow>
            op_done (ops (cb_run rs w) a) = 1
            \<and> ops (cb_run rs w) = (ops w)(a := (ops w a)\<lparr>op_done := 1\<rparr>)
            \<and> pool (cb_run rs w) = async_free_poll_task (op_idx (ops w a)) True (pool w)
            \<and> woken (cb_run rs w) = woken w @ [j])
       \<and> (op_done (ops w a) \<noteq> 0 \<or> op_job (ops w a) = None \<longrightarrow>
            ops (cb_run rs w) = ops w \<and> pool (cb_run rs w) = pool w
            \<and> woken (cb_run rs w) = woken w)"
proof (rule conjI; rule impI)
  assume first: "rs \<noteq> [] \<and> op_done (ops w a) = 0 \<and> op_job (ops w a) = Some j"
  then obtain r rs' where rs: "rs = r # rs'" by (cases rs) auto
  let ?w1 = "uadk_e_rsa_cb r w"
  have r: "cb_context r = Some a" and rest: "\<forall>r\<in>set rs'. cb_context r = None \<or> cb_context r = Some a"
    using assms rs by auto
  have one: "ops ?w1 = (ops w)(a := (ops w a)\<lparr>op_done := 1\<rparr>)"
    "pool ?w1 = async_free_poll_task (op_idx (ops w a)) True (pool w)"
    "woken ?w1 = woken w @ [j]"
    using cb_first_completion [OF r, of w j] first by auto
  then have "op_done (ops ?w1 a) \<noteq> 0 \<or> op_job (ops ?w1 a) = None" by simp
  from cb_run_already_done [OF rest this] one rs
  show "op_done (ops (cb_run rs w) a) = 1
            \<and> ops (cb_run rs w) = (ops w)(a := (ops w a)\<lparr>op_done := 1\<rparr>)
            \<and> pool (cb_run rs w) = async_free_poll_task (op_idx (ops w a)) True (pool w)
            \<and> woken (cb_run rs w) = woken w @ [j]"
    by simp
next
  assume "op_done (ops w a) \<noteq> 0 \<or> op_job (ops w a) = None"
  moreover have "\<forall>r\<in>set rs. cb_context r = None \<or> cb_context r = Some a"
    using assms by simp
  ultimately show "ops (cb_run rs w) = ops w \<and> pool (cb_run rs w) = pool w
            \<and> woken (cb_run rs w) = woken w"
    using cb_run_already_done by blast
qed

theorem uadk_e_rsa_cb_exactly_once_witness:
  "op_done (ops (cb_run [finished_req, finished_req, finished_req] parked_world) 1) = 1
   \<and> woken (cb_run [finished_req, finished_req, finished_req] parked_world) = [7]
   \<and> pool (cb_run [finished_req, finished_req, finished_req] parked_world)
       = async_free_poll_task 5 True full_queue
   \<and> woken (cb_run [finished_req, finished_req]
              (cb_run [finished_req] parked_world)) = [7]
   \<and> pool (cb_run [finished_req, finished_req] (cb_run [finished_req] parked_world))
       = async_free_poll_task 5 True full_queue"
proof -
  have ctx: "cb_context finished_req = Some 1"
    by (simp add: cb_context_def finished_req_def)
  have all3: "\<forall>r\<in>set [finished_req, finished_req, finished_req]. cb_context r = Some 1"
    using ctx by simp
  have all2: "\<forall>r\<in>set [finished_req, finished_req]. cb_context r = Some 1"
    using ctx by simp
  have all1: "\<forall>r\<in>set [finished_req]. cb_context r = Some 1"
    using ctx by simp
  have start: "op_done (ops parked_world 1) = 0" "op_job (ops parked_world 1) = Some 7"
    "op_idx (ops parked_world 1) = 5" "woken parked_world = []" "pool parked_world = full_queue"
    by (simp_all add: parked_world_def all_parked_def parked_op_def)
  have three: "op_done (ops (cb_run [finished_req, finished_req, finished_req] parked_world) 1) = 1
    \<and> woken (cb_run [finished_req, finished_req, finished_req] parked_world) = [7]
    \<and> pool (cb_run [finished_req, finished_req, finished_req] parked_world)
         = async_free_poll_task 5 True full_queue"
    using uadk_e_rsa_cb_exactly_once [OF all3, of parked_world 7] start by simp
  have one: "op_done (ops (cb_run [finished_req] parked_world) 1) = 1
    \<and> woken (cb_run [finished_req] parked_world) = [7]
    \<and> pool (cb_run [finished_req] parked_world) = async_free_poll_task 5 True full_queue"
    using uadk_e_rsa_cb_exactly_once [OF all1, of parked_world 7] start by simp
  have again: "woken (cb_run [finished_req, finished_req] (cb_run [finished_req] parked_world))
                 = woken (cb_run [finished_req] parked_world)
    \<and> pool (cb_run [finished_req, finished_req] (cb_run [finished_req] parked_world))
         = pool (cb_run [finished_req] parked_world)"
    using uadk_e_rsa_cb_exactly_once [OF all2, of "cb_run [finished_req] parked_world"] one
    by simp
  show ?thesis using three one again by simp
qed

section \<open>Results on the drain function\<close>

lemma poll_leaves:
  "(\<forall>i<k. fst (poll (n + i)) = - EAGAIN \<and> snd (poll (n + i)) < 1) \<Longrightarrow>
   1 \<le> snd (poll (n + k)) \<or> fst (poll (n + k)) \<noteq> - EAGAIN \<Longrightarrow>
   rsa_poll_loop poll n =
     Some (if 1 \<le> snd (poll (n + k)) then UADK_E_POLL_SUCCESS else fst (poll (n + k)),
           Suc (n + k))"
proof (induction k arbitrary: n)
  case 0
  then show ?case by (subst rsa_poll_loop.simps) auto
next
  case (Suc k)
  have again: "fst (poll n) = - EAGAIN" "snd (poll n) < 1"
    using Suc.prems(1) [rule_format, of 0] by simp_all
  have "\<forall>i<k. fst (poll (Suc n + i)) = - EAGAIN \<and> snd (poll (Suc n + i)) < 1"
    using Suc.prems(1) by (metis Suc_less_eq add_Suc_shift)
  moreover have "1 \<le> snd (poll (Suc n + k)) \<or> fst (poll (Suc n + k)) \<noteq> - EAGAIN"
    using Suc.prems(2) by simp
  ultimately have "rsa_poll_loop poll (Suc n) =
     Some (if 1 \<le> snd (poll (Suc n + k)) then UADK_E_POLL_SUCCESS
           else fst (poll (Suc n + k)), Suc (Suc n + k))"
    by (rule Suc.IH)
  then show ?case
    using again by (subst rsa_poll_loop.simps) (simp add: EAGAIN_def not_le [symmetric])
qed

lemma poll_returns:
  assumes "rsa_poll_loop poll n = Some y"
  shows "1 \<le> snd (poll (snd y - 1)) \<or> fst (poll (snd y - 1)) \<noteq> - EAGAIN"
  using assms
proof (induction rule: rsa_poll_loop.raw_induct [rotated 1, consumes 1])
  case (1 f poll k y)
  show ?case
  proof (cases "\<not> 1 \<le> snd (poll k) \<and> fst (poll k) = - EAGAIN")
    case True
    then have "f poll (Suc k) = Some y" using 1(2) by (simp add: EAGAIN_def)
    from 1(1) [OF this] show ?thesis .
  next
    case False
    then show ?thesis using 1(2) by (auto split: if_splits)
  qed
qed

lemma poll_never_leaves:
  assumes "\<forall>i. fst (poll i) = - EAGAIN \<and> snd (poll i) < 1"
  shows "rsa_poll_loop poll n = None"
proof (cases "rsa_poll_loop poll n")
  case None
  then show ?thesis .
next
  case (Some y)
  from poll_returns [OF Some] assms show ?thesis by (metis not_le)
qed

text \<open>
  Claim C6, as amended. \<^verbatim>\<open>uadk_e_rsa_poll\<close> returns 0 as soon as a call of
  \<^verbatim>\<open>wd_rsa_poll_ctx\<close> leaves at least one completion in \<^verbatim>\<open>recv\<close>, whatever status that
  call returned. While \<^verbatim>\<open>recv\<close> stays below one it polls again on \<^verbatim>\<open>-EAGAIN\<close>, and
  returns any other status unchanged, negative or not; so it also returns 0 when
  \<^verbatim>\<open>wd_rsa_poll_ctx\<close> itself returns 0 with nothing received. If every answer is
  \<^verbatim>\<open>-EAGAIN\<close> with nothing received, it never returns.
\<close>

theorem uadk_e_rsa_poll_status:
  "((\<forall>i<k. fst (poll i) = - EAGAIN \<and> snd (poll i) < 1) \<and> 1 \<le> snd (poll k)
      \<longrightarrow> uadk_e_rsa_poll poll = Some (UADK_E_POLL_SUCCESS, Suc k))
   \<and> ((\<forall>i<k. fst (poll i) = - EAGAIN \<and> snd (poll i) < 1) \<and> snd (poll k) < 1
        \<and> fst (poll k) \<noteq> - EAGAIN
      \<longrightarrow> uadk_e_rsa_poll poll = Some (fst (poll k), Suc k))
   \<and> ((\<forall>i. fst (poll i) = - EAGAIN \<and> snd (poll i) < 1)
      \<longrightarrow> uadk_e_rsa_poll poll = None)"
proof (intro conjI impI)
  assume "(\<forall>i<k. fst (poll i) = - EAGAIN \<and> snd (poll i) < 1) \<and> 1 \<le> snd (poll k)"
  then show "uadk_e_rsa_poll poll = Some (UADK_E_POLL_SUCCESS, Suc k)"
    using poll_leaves [of k poll 0] by (simp add: uadk_e_rsa_poll_def)
next
  assume "(\<forall>i<k. fst (poll i) = - EAGAIN \<and> snd (poll i) < 1) \<and> snd (poll k) < 1
        \<and> fst (poll k) \<noteq> - EAGAIN"
  then show "uadk_e_rsa_poll poll = Some (fst (poll k), Suc k)"
    using poll_leaves [of k poll 0] by (simp add: uadk_e_rsa_poll_def not_le [symmetric])
next
  assume "\<forall>i. fst (poll i) = - EAGAIN \<and> snd (poll i) < 1"
  then show "uadk_e_rsa_poll poll = None"
    unfolding uadk_e_rsa_poll_def by (rule poll_never_leaves)
qed

theorem uadk_e_rsa_poll_status_witness:
  "uadk_e_rsa_poll poll_empty_twice = Some (UADK_E_POLL_SUCCESS, 3)
   \<and> uadk_e_rsa_poll poll_empty_then_fatal = Some (- 22, 3)"
proof -
  have a: "(\<forall>i<2. fst (poll_empty_twice i) = - EAGAIN \<and> snd (poll_empty_twice i) < 1)
           \<and> 1 \<le> snd (poll_empty_twice 2)"
    by (simp add: poll_empty_twice_def)
  have b: "(\<forall>i<2. fst (poll_empty_then_fatal i) = - EAGAIN \<and> snd (poll_empty_then_fatal i) < 1)
           \<and> snd (poll_empty_then_fatal 2) < 1 \<and> fst (poll_empty_then_fatal 2) \<noteq> - EAGAIN"
    by (simp add: poll_empty_then_fatal_def EAGAIN_def)
  have c: "fst (poll_empty_then_fatal 2) = - 22"
    by (simp add: poll_empty_then_fatal_def)
  show ?thesis
    using uadk_e_rsa_poll_status [of 2 poll_empty_twice] a
      uadk_e_rsa_poll_status [of 2 poll_empty_then_fatal] b c
    by (simp add: numeral_3_eq_3)
qed

text \<open>
  Claim C6 as stated fails: the drain function returns the success status 0 although
  \<^verbatim>\<open>wd_rsa_poll_ctx\<close> observed no completion, and it returns 0 rather than the negative
  status when that status comes with a completion.
\<close>

theorem uadk_e_rsa_poll_counterexample:
  "snd (poll_zero_nothing 0) = 0
   \<and> uadk_e_rsa_poll poll_zero_nothing = Some (UADK_E_POLL_SUCCESS, 1)
   \<and> fst (poll_error_with_one 0) = - 22
   \<and> uadk_e_rsa_poll poll_error_with_one = Some (UADK_E_POLL_SUCCESS, 1)"
proof -
  have "rsa_poll_loop poll_zero_nothing 0 = Some (UADK_E_POLL_SUCCESS, 1)"
    by (subst rsa_poll_loop.simps)
       (simp add: poll_zero_nothing_def EAGAIN_def UADK_E_POLL_SUCCESS_def)
  moreover have "rsa_poll_loop poll_error_with_one 0 = Some (UADK_E_POLL_SUCCESS, 1)"
    by (subst rsa_poll_loop.simps) (simp add: poll_error_with_one_def)
  ultimately show ?thesis
    by (simp add: uadk_e_rsa_poll_def poll_zero_nothing_def poll_error_with_one_def)
qed

section \<open>Results on the submitter\<close>

lemma retry_leaves:
  "(\<forall>i<k. wd (n + i) = - EBUSY) \<Longrightarrow> wd (n + k) \<noteq> - EBUSY \<Longrightarrow>
   wd_do_rsa_async_retry wd n = Some (wd (n + k), Suc (n + k))"
proof (induction k arbitrary: n)
  case 0
  then show ?case by (subst wd_do_rsa_async_retry.simps) simp
next
  case (Suc k)
  have busy: "wd n = - EBUSY" using Suc.prems(1) [rule_format, of 0] by simp
  have "\<forall>i<k. wd (Suc n + i) = - EBUSY"
    using Suc.prems(1) by (metis Suc_less_eq add_Suc_shift)
  moreover have "wd (Suc n + k) \<noteq> - EBUSY" using Suc.prems(2) by simp
  ultimately have "wd_do_rsa_async_retry wd (Suc n) = Some (wd (Suc n + k), Suc (Suc n + k))"
    by (rule Suc.IH)
  then show ?case
    using busy by (subst wd_do_rsa_async_retry.simps) (simp add: EBUSY_def)
qed

lemma retry_returns_not_busy:
  assumes "wd_do_rsa_async_retry wd n = Some y"
  shows "fst y \<noteq> - EBUSY \<and> n < snd y \<and> fst y = wd (snd y - 1)
         \<and> (\<forall>i. n \<le> i \<and> i < snd y - 1 \<longrightarrow> wd i = - EBUSY)"
  using assms
proof (induction rule: wd_do_rsa_async_retry.raw_induct [rotated 1, consumes 1])
  case (1 f wd k y)
  show ?case
  proof (cases "wd k = - EBUSY")
    case True
    then have "f wd (Suc k) = Some y" using 1(2) by (simp add: EBUSY_def)
    from 1(1) [OF this] have ih: "fst y \<noteq> - EBUSY" "Suc k < snd y" "fst y = wd (snd y - 1)"
      "\<forall>i. Suc k \<le> i \<and> i < snd y - 1 \<longrightarrow> wd i = - EBUSY" by auto
    have "wd i = - EBUSY" if "k \<le> i \<and> i < snd y - 1" for i
      using that True ih(4) by (cases "i = k") auto
    then show ?thesis using ih by auto
  next
    case False
    then show ?thesis using 1(2) by (auto split: if_splits)
  qed
qed

lemma retry_never_leaves:
  assumes "\<forall>i. wd i = - EBUSY"
  shows "wd_do_rsa_async_retry wd n = None"
proof (cases "wd_do_rsa_async_retry wd n")
  case None
  then show ?thesis .
next
  case (Some y)
  from retry_returns_not_busy [OF Some]
  have "fst y \<noteq> - EBUSY" "fst y = wd (snd y - 1)" by auto
  with assms show ?thesis by metis
qed

lemma acquire_then_release:
  assumes "async_get_free_task q0 = (Some i, q)"
  shows "status (async_free_poll_task (int i) False q) = status q0"
proof -
  from assms have ff: "find_free (status q0) (sid q0) ASYNC_QUEUE_TASK_NUM = Some i"
    and q: "status q = (status q0)[i := 1]"
    by (auto simp: async_get_free_task_def split: option.splits)
  from find_free_Some [OF ff] have i: "i < length (status q0)" "status q0 ! i = 0" by auto
  have "(status q0)[i := 0] = status q0"
    using list_update_id [of "status q0" i] i(2) by simp
  moreover have "i < length (status q) \<and> status q ! i \<noteq> 0"
    using q i(1) by simp
  ultimately show ?thesis using q by (simp add: async_free_poll_task_def)
qed

lemma rsa_do_crypto_async_entered:
  "setup_ret e \<noteq> 0 \<Longrightarrow> op_job (setup_op e) \<noteq> None \<Longrightarrow>
   rsa_do_crypto e s = rsa_do_crypto_async e (log_call Setup_async_event_notification s)"
  by (auto simp: rsa_do_crypto_def Let_def)

lemma rsa_do_crypto_exhausted:
  assumes "setup_ret e \<noteq> 0" and "op_job (setup_op e) \<noteq> None"
    and "fst (async_get_free_task (queue s)) = None"
  shows "\<exists>s'. rsa_do_crypto e s = Some (UADK_E_FAIL, s')"
proof -
  have "async_get_free_task (queue s) = (None, queue s)"
    using assms(3) by (rule get_free_task_None_unchanged)
  then show ?thesis
    unfolding rsa_do_crypto_async_entered [OF assms(1,2)]
    by (simp add: rsa_do_crypto_async_def rsa_do_crypto_err_def log_call_def Let_def)
qed

lemma rsa_do_crypto_fatal_fails:
  assumes "setup_ret e \<noteq> 0" and "op_job (setup_op e) \<noteq> None"
    and "fst (async_get_free_task (queue s)) \<noteq> None"
    and "\<forall>j<k. async_ret e j = - EBUSY"
    and "async_ret e k < 0" and "async_ret e k \<noteq> - EBUSY"
  shows "\<exists>s'. rsa_do_crypto e s = Some (UADK_E_FAIL, s')"
proof -
  obtain i q where got: "async_get_free_task (queue s) = (Some i, q)"
    using assms(3) by (cases "async_get_free_task (queue s)") auto
  have loop: "wd_do_rsa_async_retry (async_ret e) 0 = Some (async_ret e k, Suc k)"
    using retry_leaves [of k "async_ret e" 0] assms(4,6) by simp
  show ?thesis
    unfolding rsa_do_crypto_async_entered [OF assms(1,2)]
    using got assms(5,6) loop
    by (simp add: rsa_do_crypto_async_def rsa_do_crypto_err_def log_call_def Let_def)
qed

lemma rsa_do_crypto_sync_fails:
  assumes "setup_ret e \<noteq> 0" and "op_job (setup_op e) = None" and "sync_ret e \<noteq> 0"
  shows "\<exists>s'. rsa_do_crypto e s = Some (UADK_E_FAIL, s')"
  using assms by (simp add: rsa_do_crypto_def rsa_do_crypto_err_def Let_def)

lemma idle_queue_first_slot:
  "async_get_free_task (queue idle_state)
     = (Some 0, empty_queue\<lparr>status := (status empty_queue)[0 := 1], sid := 1\<rparr>)"
  using get_free_task_empty_queue by (simp add: idle_state_def)

text \<open>
  Claim C1. When a slot was acquired and \<^verbatim>\<open>wd_do_rsa_async\<close>, after any number of busy
  answers, returns a negative status other than \<^verbatim>\<open>-EBUSY\<close>, \<^verbatim>\<open>rsa_do_crypto\<close> returns
  \<^verbatim>\<open>UADK_E_FAIL\<close>. Its calls are exactly: the setup, the acquisition, the submissions,
  \<^verbatim>\<open>async_free_poll_task(op.idx, 0)\<close> and the clearing of the notification; it never
  calls \<^verbatim>\<open>async_pause_job\<close>. The occupancy array, and so the occupancy, is as before.
\<close>

theorem rsa_do_crypto_fatal_rollback:
  assumes "setup_ret e \<noteq> 0" and "op_job (setup_op e) \<noteq> None"
    and "async_get_free_task (queue s) = (Some i, q)"
    and "\<forall>j<k. async_ret e j = - EBUSY"
    and "async_ret e k < 0" and "async_ret e k \<noteq> - EBUSY"
  shows "\<exists>s'. rsa_do_crypto e s = Some (UADK_E_FAIL, s')
     \<and> calls s' = calls s @ [Setup_async_event_notification, Get_free_task]
                   @ replicate (Suc k) Wd_do_rsa_async
                   @ [Free_poll_task (int i) False, Clear_async_event_notification]
     \<and> (\<forall>x. Pause_job x \<notin> set (drop (length (calls s)) (calls s')))
     \<and> queue s' = async_free_poll_task (int i) False q
     \<and> status (queue s') = status (queue s)
     \<and> occupancy (queue s') = occupancy (queue s)"
proof -
  have loop: "wd_do_rsa_async_retry (async_ret e) 0 = Some (async_ret e k, Suc k)"
    using retry_leaves [of k "async_ret e" 0] assms(4,6) by simp
  have st: "status (async_free_poll_task (int i) False q) = status (queue s)"
    using acquire_then_release [OF assms(3)] .
  show ?thesis
    unfolding rsa_do_crypto_async_entered [OF assms(1,2)]
    using assms(3,5,6) loop st
    by (simp add: rsa_do_crypto_async_def rsa_do_crypto_err_def log_call_def Let_def
        occupancy_def)
qed

theorem rsa_do_crypto_fatal_rollback_witness:
  "\<exists>s'. rsa_do_crypto fatal_env idle_state = Some (UADK_E_FAIL, s')
     \<and> calls s' = [Setup_async_event_notification, Get_free_task, Wd_do_rsa_async,
                    Wd_do_rsa_async, Wd_do_rsa_async, Free_poll_task 0 False,
                    Clear_async_event_notification]
     \<and> occupancy (queue s') = 0"
proof -
  have h1: "setup_ret fatal_env \<noteq> 0" by (simp add: fatal_env_def)
  have h2: "op_job (setup_op fatal_env) \<noteq> None" by (simp add: fatal_env_def job_op_def)
  have h4: "\<forall>j<2. async_ret fatal_env j = - EBUSY"
    by (simp add: fatal_env_def busy_then_fatal_def)
  have h5: "async_ret fatal_env 2 < 0" by (simp add: fatal_env_def busy_then_fatal_def)
  have h6: "async_ret fatal_env 2 \<noteq> - EBUSY"
    by (simp add: fatal_env_def busy_then_fatal_def EBUSY_def)
  have start: "calls idle_state = []" "occupancy (queue idle_state) = 0"
    using occupancy_empty_queue by (simp_all add: idle_state_def)
  show ?thesis
    using rsa_do_crypto_fatal_rollback [OF h1 h2 idle_queue_first_slot h4 h5 h6] start
    by (auto simp: numeral_2_eq_2)
qed

text \<open>
  Claim C3, as amended. When \<^verbatim>\<open>wd_do_rsa_async\<close> returns \<^verbatim>\<open>-EBUSY\<close>, \<^verbatim>\<open>rsa_do_crypto\<close>
  submits again, and nothing bounds the number of submissions: after \<open>k\<close> busy answers
  and one that is not busy it has submitted \<open>k + 1\<close> times, and if every answer is busy
  it never returns. Any other negative status ends the attempt with \<^verbatim>\<open>UADK_E_FAIL\<close> and
  without parking; a status that is not negative parks the job.
\<close>

theorem rsa_do_crypto_retry_unbounded:
  assumes "setup_ret e \<noteq> 0" and "op_job (setup_op e) \<noteq> None"
    and "async_get_free_task (queue s) = (Some i, q)"
  shows "((\<forall>j<k. async_ret e j = - EBUSY) \<and> async_ret e k \<noteq> - EBUSY \<longrightarrow>
            (\<exists>r s'. rsa_do_crypto e s = Some (r, s')
               \<and> (r = UADK_E_SUCCESS \<or> r = UADK_E_FAIL)
               \<and> count_list (calls s') Wd_do_rsa_async
                   = count_list (calls s) Wd_do_rsa_async + Suc k
               \<and> (async_ret e k < 0 \<longrightarrow> r = UADK_E_FAIL \<and> Pause_job (int i) \<notin> set (drop (length (calls s)) (calls s')))
               \<and> (0 \<le> async_ret e k \<longrightarrow> Pause_job (int i) \<in> set (calls s'))))
       \<and> ((\<forall>j. async_ret e j = - EBUSY) \<longrightarrow> rsa_do_crypto e s = None)"
proof (intro conjI impI)
  assume a: "(\<forall>j<k. async_ret e j = - EBUSY) \<and> async_ret e k \<noteq> - EBUSY"
  have loop: "wd_do_rsa_async_retry (async_ret e) 0 = Some (async_ret e k, Suc k)"
    using retry_leaves [of k "async_ret e" 0] a by simp
  have cnt: "count_list (replicate n Wd_do_rsa_async) Wd_do_rsa_async = n" for n
    by (induction n) simp_all
  show "\<exists>r s'. rsa_do_crypto e s = Some (r, s')
               \<and> (r = UADK_E_SUCCESS \<or> r = UADK_E_FAIL)
               \<and> count_list (calls s') Wd_do_rsa_async
                   = count_list (calls s) Wd_do_rsa_async + Suc k
               \<and> (async_ret e k < 0 \<longrightarrow> r = UADK_E_FAIL \<and> Pause_job (int i) \<notin> set (drop (length (calls s)) (calls s')))
               \<and> (0 \<le> async_ret e k \<longrightarrow> Pause_job (int i) \<in> set (calls s'))"
    unfolding rsa_do_crypto_async_entered [OF assms(1,2)]
    using assms(3) a loop
    by (auto simp: rsa_do_crypto_async_def rsa_do_crypto_err_def log_call_def Let_def cnt)
next
  assume "\<forall>j. async_ret e j = - EBUSY"
  then have "wd_do_rsa_async_retry (async_ret e) 0 = None"
    by (rule retry_never_leaves)
  then show "rsa_do_crypto e s = None"
    unfolding rsa_do_crypto_async_entered [OF assms(1,2)]
    using assms(3) by (simp add: rsa_do_crypto_async_def log_call_def Let_def)
qed

theorem rsa_do_crypto_retry_unbounded_witness:
  "\<exists>r s'. rsa_do_crypto fatal_env idle_state = Some (r, s')
     \<and> count_list (calls s') Wd_do_rsa_async = 3 \<and> r = UADK_E_FAIL"
proof -
  have h1: "setup_ret fatal_env \<noteq> 0" by (simp add: fatal_env_def)
  have h2: "op_job (setup_op fatal_env) \<noteq> None" by (simp add: fatal_env_def job_op_def)
  have h4: "(\<forall>j<2. async_ret fatal_env j = - EBUSY) \<and> async_ret fatal_env 2 \<noteq> - EBUSY"
    by (simp add: fatal_env_def busy_then_fatal_def EBUSY_def)
  have h5: "async_ret fatal_env 2 < 0" by (simp add: fatal_env_def busy_then_fatal_def)
  have start: "count_list (calls idle_state) Wd_do_rsa_async = 0"
    by (simp add: idle_state_def)
  show ?thesis
    using rsa_do_crypto_retry_unbounded [OF h1 h2 idle_queue_first_slot, of 2] h4 h5 start
    by auto
qed

text \<open>
  Claim C3 as stated fails: on hardware that always answers \<^verbatim>\<open>-EBUSY\<close> the retry loop
  has no bound, and \<^verbatim>\<open>rsa_do_crypto\<close> never returns.
\<close>

theorem rsa_do_crypto_retry_counterexample:
  "async_ret busy_env 0 = - EBUSY \<and> rsa_do_crypto busy_env idle_state = None"
proof -
  have busy: "\<forall>j. async_ret busy_env j = - EBUSY"
    by (simp add: busy_env_def always_busy_def)
  then have never: "wd_do_rsa_async_retry (async_ret busy_env) 0 = None"
    by (rule retry_never_leaves)
  have h1: "setup_ret busy_env \<noteq> 0" by (simp add: busy_env_def)
  have h2: "op_job (setup_op busy_env) \<noteq> None" by (simp add: busy_env_def job_op_def)
  have "rsa_do_crypto busy_env idle_state = None"
    unfolding rsa_do_crypto_async_entered [OF h1 h2]
    using idle_queue_first_slot never
    by (simp add: rsa_do_crypto_async_def log_call_def Let_def)
  then show ?thesis using busy by simp
qed

text \<open>
  Claim C5. When the notification setup succeeds and leaves a null job, \<^verbatim>\<open>rsa_do_crypto\<close>
  returns, its calls are the setup and \<^verbatim>\<open>wd_do_rsa_sync\<close> (and the clearing of the
  notification when that call fails), so it acquires no slot and parks nothing; the pool
  and the request's callback fields are untouched; and it returns \<^verbatim>\<open>UADK_E_SUCCESS\<close>
  exactly when \<^verbatim>\<open>wd_do_rsa_sync\<close> returns 0, else \<^verbatim>\<open>UADK_E_FAIL\<close>.
\<close>

theorem rsa_do_crypto_sync_mode:
  assumes "setup_ret e \<noteq> 0" and "op_job (setup_op e) = None"
  shows "\<exists>r s'. rsa_do_crypto e s = Some (r, s')
     \<and> (r = UADK_E_SUCCESS \<longleftrightarrow> sync_ret e = 0)
     \<and> (r = UADK_E_FAIL \<longleftrightarrow> sync_ret e \<noteq> 0)
     \<and> calls s' = calls s @ [Setup_async_event_notification, Wd_do_rsa_sync]
                   @ (if sync_ret e = 0 then [] else [Clear_async_event_notification])
     \<and> queue s' = queue s
     \<and> req_cb (req s') = req_cb (req s)
     \<and> req_cb_param (req s') = req_cb_param (req s)"
  using assms
  by (simp add: rsa_do_crypto_def rsa_do_crypto_err_def log_call_def Let_def
      UADK_E_SUCCESS_def UADK_E_FAIL_def)

theorem rsa_do_crypto_sync_mode_witness:
  "(\<exists>s'. rsa_do_crypto sync_ok_env idle_state = Some (UADK_E_SUCCESS, s')
       \<and> calls s' = [Setup_async_event_notification, Wd_do_rsa_sync]
       \<and> queue s' = empty_queue \<and> req_cb (req s') = None)
   \<and> (\<exists>s'. rsa_do_crypto sync_fail_env idle_state = Some (UADK_E_FAIL, s')
       \<and> calls s' = [Setup_async_event_notification, Wd_do_rsa_sync,
                      Clear_async_event_notification]
       \<and> queue s' = empty_queue \<and> req_cb (req s') = None)"
proof -
  have a: "setup_ret sync_ok_env \<noteq> 0" "op_job (setup_op sync_ok_env) = None"
    "sync_ret sync_ok_env = 0"
    by (simp_all add: sync_ok_env_def no_job_op_def)
  have b: "setup_ret sync_fail_env \<noteq> 0" "op_job (setup_op sync_fail_env) = None"
    "sync_ret sync_fail_env \<noteq> 0"
    by (simp_all add: sync_fail_env_def no_job_op_def)
  have start: "calls idle_state = []" "queue idle_state = empty_queue"
    "req_cb (req idle_state) = None"
    by (simp_all add: idle_state_def)
  have ok: "\<exists>s'. rsa_do_crypto sync_ok_env idle_state = Some (UADK_E_SUCCESS, s')
       \<and> calls s' = [Setup_async_event_notification, Wd_do_rsa_sync]
       \<and> queue s' = empty_queue \<and> req_cb (req s') = None"
    using rsa_do_crypto_sync_mode [OF a(1,2), of idle_state] a(3) start by auto
  have fail: "\<exists>s'. rsa_do_crypto sync_fail_env idle_state = Some (UADK_E_FAIL, s')
       \<and> calls s' = [Setup_async_event_notification, Wd_do_rsa_sync,
                      Clear_async_event_notification]
       \<and> queue s' = empty_queue \<and> req_cb (req s') = None"
    using rsa_do_crypto_sync_mode [OF b(1,2), of idle_state] b(3) start by auto
  show ?thesis using ok fail by blast
qed

section \<open>Results on the RSA methods\<close>

lemmas rsa_meth_defs =
  uadk_e_rsa_keygen_def uadk_e_rsa_public_encrypt_def uadk_e_rsa_private_decrypt_def
  uadk_e_rsa_private_sign_def uadk_e_rsa_public_verify_def

lemma meth_soft_check:
  "rsa_meth_check m a = SOFT \<Longrightarrow> rsa_hw_meth m a h e s = Some (Exe_soft, s)"
  by (cases m) (simp_all add: rsa_meth_defs Let_def SOFT_def)

lemma meth_not_attempted:
  "rsa_meth_check m a \<noteq> UADK_E_SUCCESS \<Longrightarrow>
   rsa_hw_meth m a h e s = Some (Exe_soft, s)
   \<or> rsa_hw_meth m a h e s = Some (Returned UADK_E_FAIL, s)"
  using rsa_meth_check_range [of m a]
  by (cases m) (auto simp: rsa_meth_defs Let_def rsa_consts)

lemma meth_early_exhaustion:
  "rsa_meth_check m a = UADK_E_SUCCESS \<Longrightarrow>
   init_ret h \<noteq> 0 \<or> alloc_ret h = - ENOMEM \<or> sess_null h \<Longrightarrow>
   rsa_hw_meth m a h e s = Some (Exe_soft, s)"
  by (cases m) (auto simp: rsa_meth_defs Let_def hw_tail_def rsa_consts)

lemma meth_crypto_failed:
  "rsa_meth_check m a = UADK_E_SUCCESS \<Longrightarrow>
   rsa_do_crypto e (new_session s) = Some (r, s') \<Longrightarrow>
   r = UADK_E_FAIL \<or> req_status (req s') \<noteq> 0 \<Longrightarrow>
   rsa_hw_meth m a h e s = Some (Exe_soft, s) \<or> rsa_hw_meth m a h e s = Some (Exe_soft, s')"
  by (cases m) (auto simp: rsa_meth_defs Let_def hw_tail_def rsa_consts)

lemma meth_returned:
  "rsa_hw_meth m a h e s = Some (Returned v, s') \<Longrightarrow>
   (m = Pub_dec \<and> rsa_meth_check m a = UADK_E_FAIL \<and> v = UADK_E_FAIL \<and> s' = s)
   \<or> (rsa_meth_check m a = UADK_E_SUCCESS \<and> v \<noteq> UADK_DO_SOFT
       \<and> (\<exists>r. rsa_do_crypto e (new_session s) = Some (r, s') \<and> r \<noteq> UADK_E_FAIL
               \<and> req_status (req s') = 0))"
proof (cases m)
  case Keygen
  assume "rsa_hw_meth m a h e s = Some (Returned v, s')"
  then show ?thesis
    using Keygen rsa_meth_check_range [of Keygen a]
    by (auto simp: uadk_e_rsa_keygen_def Let_def hw_tail_def rsa_consts
        split: if_splits option.splits)
next
  case Pub_enc
  assume "rsa_hw_meth m a h e s = Some (Returned v, s')"
  then show ?thesis
    using Pub_enc rsa_meth_check_range [of Pub_enc a]
    by (auto simp: uadk_e_rsa_public_encrypt_def Let_def hw_tail_def rsa_consts
        split: if_splits option.splits)
next
  case Priv_dec
  assume "rsa_hw_meth m a h e s = Some (Returned v, s')"
  then show ?thesis
    using Priv_dec rsa_meth_check_range [of Priv_dec a]
    by (auto simp: uadk_e_rsa_private_decrypt_def Let_def hw_tail_def rsa_consts
        split: if_splits option.splits)
next
  case Priv_enc
  assume "rsa_hw_meth m a h e s = Some (Returned v, s')"
  then show ?thesis
    using Priv_enc rsa_meth_check_range [of Priv_enc a]
    by (auto simp: uadk_e_rsa_private_sign_def Let_def hw_tail_def rsa_consts
        split: if_splits option.splits)
next
  case Pub_dec
  assume "rsa_hw_meth m a h e s = Some (Returned v, s')"
  then show ?thesis
    using Pub_dec rsa_meth_check_range [of Pub_dec a]
    by (auto simp: uadk_e_rsa_public_verify_def Let_def hw_tail_def rsa_consts
        split: if_splits option.splits)
qed


lemma meth_check_args_7680: "rsa_meth_check m args_7680 = SOFT"
  by (cases m)
     (simp_all add: args_7680_def check_rsa_input_para_def rsa_check_bit_useful_def rsa_consts)

text \<open>
  What holds of all five methods on the hardware path (the first check returned
  \<^verbatim>\<open>UADK_E_SUCCESS\<close>): a failed initialisation, \<^verbatim>\<open>-ENOMEM\<close> or a null session reaches
  \<^verbatim>\<open>exe_soft\<close> with nothing touched; whenever \<^verbatim>\<open>rsa_do_crypto\<close> returns \<^verbatim>\<open>UADK_E_FAIL\<close> or
  leaves a nonzero \<^verbatim>\<open>req.status\<close> the method reaches \<^verbatim>\<open>exe_soft\<close>, and that is the case
  when no slot is free, when the asynchronous submission is rejected, and when the
  synchronous call fails; and a method returns a value of its own, other than the
  immediate failure of the verify method on a failed input check, only when
  \<^verbatim>\<open>rsa_do_crypto\<close> succeeded and left \<^verbatim>\<open>req.status\<close> zero.
\<close>

lemma crypto_failure_falls_back:
  "(rsa_meth_check m a = UADK_E_SUCCESS
      \<and> (init_ret h \<noteq> 0 \<or> alloc_ret h = - ENOMEM \<or> sess_null h)
      \<longrightarrow> rsa_hw_meth m a h e s = Some (Exe_soft, s))
   \<and> (rsa_meth_check m a = UADK_E_SUCCESS
      \<and> rsa_do_crypto e (new_session s) = Some (r, s')
      \<and> (r = UADK_E_FAIL \<or> req_status (req s') \<noteq> 0)
      \<longrightarrow> map_option fst (rsa_hw_meth m a h e s) = Some Exe_soft)
   \<and> (rsa_meth_check m a = UADK_E_SUCCESS
      \<and> setup_ret e \<noteq> 0 \<and> op_job (setup_op e) \<noteq> None
      \<and> fst (async_get_free_task (queue s)) = None
      \<longrightarrow> map_option fst (rsa_hw_meth m a h e s) = Some Exe_soft)
   \<and> (rsa_meth_check m a = UADK_E_SUCCESS
      \<and> setup_ret e \<noteq> 0 \<and> op_job (setup_op e) \<noteq> None
      \<and> fst (async_get_free_task (queue s)) \<noteq> None
      \<and> (\<forall>j<k. async_ret e j = - EBUSY) \<and> async_ret e k < 0 \<and> async_ret e k \<noteq> - EBUSY
      \<longrightarrow> map_option fst (rsa_hw_meth m a h e s) = Some Exe_soft)
   \<and> (rsa_meth_check m a = UADK_E_SUCCESS
      \<and> setup_ret e \<noteq> 0 \<and> op_job (setup_op e) = None \<and> sync_ret e \<noteq> 0
      \<longrightarrow> map_option fst (rsa_hw_meth m a h e s) = Some Exe_soft)
   \<and> (rsa_hw_meth m a h e s = Some (Returned v, s')
      \<longrightarrow> (m = Pub_dec \<and> rsa_meth_check m a = UADK_E_FAIL \<and> v = UADK_E_FAIL \<and> s' = s)
          \<or> (rsa_meth_check m a = UADK_E_SUCCESS \<and> v \<noteq> UADK_DO_SOFT
              \<and> (\<exists>r. rsa_do_crypto e (new_session s) = Some (r, s') \<and> r \<noteq> UADK_E_FAIL
                      \<and> req_status (req s') = 0)))"
proof -
  have q: "queue (new_session s) = queue s" by (simp add: new_session_def)
  have failed: "map_option fst (rsa_hw_meth m a h e s) = Some Exe_soft"
    if "rsa_meth_check m a = UADK_E_SUCCESS"
      and "\<exists>s1. rsa_do_crypto e (new_session s) = Some (UADK_E_FAIL, s1)"
  proof -
    from that(2) obtain s1 where "rsa_do_crypto e (new_session s) = Some (UADK_E_FAIL, s1)"
      by blast
    from meth_crypto_failed [OF that(1) this] show ?thesis by auto
  qed
  have c1: "rsa_meth_check m a = UADK_E_SUCCESS
      \<and> (init_ret h \<noteq> 0 \<or> alloc_ret h = - ENOMEM \<or> sess_null h)
      \<longrightarrow> rsa_hw_meth m a h e s = Some (Exe_soft, s)"
    using meth_early_exhaustion by blast
  have c2: "rsa_meth_check m a = UADK_E_SUCCESS
      \<and> rsa_do_crypto e (new_session s) = Some (r, s')
      \<and> (r = UADK_E_FAIL \<or> req_status (req s') \<noteq> 0)
      \<longrightarrow> map_option fst (rsa_hw_meth m a h e s) = Some Exe_soft"
    using meth_crypto_failed [of m a e s r s' h] by auto
  have c3: "rsa_meth_check m a = UADK_E_SUCCESS
      \<and> setup_ret e \<noteq> 0 \<and> op_job (setup_op e) \<noteq> None
      \<and> fst (async_get_free_task (queue s)) = None
      \<longrightarrow> map_option fst (rsa_hw_meth m a h e s) = Some Exe_soft"
    using failed rsa_do_crypto_exhausted [of e "new_session s"] q by simp
  have c4: "rsa_meth_check m a = UADK_E_SUCCESS
      \<and> setup_ret e \<noteq> 0 \<and> op_job (setup_op e) \<noteq> None
      \<and> fst (async_get_free_task (queue s)) \<noteq> None
      \<and> (\<forall>j<k. async_ret e j = - EBUSY) \<and> async_ret e k < 0 \<and> async_ret e k \<noteq> - EBUSY
      \<longrightarrow> map_option fst (rsa_hw_meth m a h e s) = Some Exe_soft"
    using failed rsa_do_crypto_fatal_fails [of e "new_session s" k] q by simp
  have c5: "rsa_meth_check m a = UADK_E_SUCCESS
      \<and> setup_ret e \<noteq> 0 \<and> op_job (setup_op e) = None \<and> sync_ret e \<noteq> 0
      \<longrightarrow> map_option fst (rsa_hw_meth m a h e s) = Some Exe_soft"
    using failed rsa_do_crypto_sync_fails [of e "new_session s"] by simp
  have c6: "rsa_hw_meth m a h e s = Some (Returned v, s')
      \<longrightarrow> (m = Pub_dec \<and> rsa_meth_check m a = UADK_E_FAIL \<and> v = UADK_E_FAIL \<and> s' = s)
          \<or> (rsa_meth_check m a = UADK_E_SUCCESS \<and> v \<noteq> UADK_DO_SOFT
              \<and> (\<exists>r. rsa_do_crypto e (new_session s) = Some (r, s') \<and> r \<noteq> UADK_E_FAIL
                      \<and> req_status (req s') = 0))"
    using meth_returned by blast
  show ?thesis using c1 c2 c3 c4 c5 c6 by blast
qed





text \<open>
  Claim C10. For a null \<^verbatim>\<open>rsa\<close>, \<^verbatim>\<open>from\<close> or \<^verbatim>\<open>to\<close>, or \<^verbatim>\<open>flen <= 0\<close>, the verify method
  returns \<^verbatim>\<open>UADK_E_FAIL\<close> at once, while the encrypt, decrypt and sign methods reach
  \<^verbatim>\<open>exe_soft\<close> and hand the same arguments to the OpenSSL software method; none of them
  touches the hardware state.
\<close>

theorem invalid_input_handling:
  assumes "rsa = None \<or> frm = None \<or> to = None \<or> flen \<le> 0"
  shows "uadk_e_rsa_public_verify flen frm to rsa h e s = Some (Returned UADK_E_FAIL, s)
     \<and> uadk_e_rsa_public_encrypt flen frm to rsa h e s = Some (Exe_soft, s)
     \<and> uadk_e_rsa_private_decrypt flen frm to rsa h e s = Some (Exe_soft, s)
     \<and> uadk_e_rsa_private_sign flen frm to rsa h e s = Some (Exe_soft, s)"
proof -
  have "check_rsa_input_para flen frm to rsa = 0"
    using assms by (auto simp: check_rsa_input_para_def UADK_E_FAIL_def split: option.splits)
  then show ?thesis by (simp add: rsa_meth_defs)
qed

theorem invalid_input_handling_witness:
  "uadk_e_rsa_public_verify 0 (Some 100) (Some 200) (Some \<lparr>RSA_bits = 2048\<rparr>)
       steps_ok sync_ok_env idle_state = Some (Returned UADK_E_FAIL, idle_state)
   \<and> uadk_e_rsa_public_encrypt 0 (Some 100) (Some 200) (Some \<lparr>RSA_bits = 2048\<rparr>)
       steps_ok sync_ok_env idle_state = Some (Exe_soft, idle_state)
   \<and> uadk_e_rsa_private_decrypt 16 None (Some 200) (Some \<lparr>RSA_bits = 2048\<rparr>)
       steps_ok sync_ok_env idle_state = Some (Exe_soft, idle_state)
   \<and> uadk_e_rsa_private_sign 16 (Some 100) (Some 200) None
       steps_ok sync_ok_env idle_state = Some (Exe_soft, idle_state)"
proof -
  have a: "Some \<lparr>RSA_bits = 2048\<rparr> = None \<or> Some (100::nat) = None \<or> Some (200::nat) = None
           \<or> (0::int) \<le> 0"
    by simp
  have b: "Some \<lparr>RSA_bits = 2048\<rparr> = None \<or> (None::nat option) = None \<or> Some (200::nat) = None
           \<or> (16::int) \<le> 0"
    by simp
  have c: "(None::rsa_st option) = None \<or> Some (100::nat) = None \<or> Some (200::nat) = None
           \<or> (16::int) \<le> 0"
    by simp
  show ?thesis
    using invalid_input_handling [OF a, of steps_ok sync_ok_env idle_state]
      invalid_input_handling [OF b, of steps_ok sync_ok_env idle_state]
      invalid_input_handling [OF c, of steps_ok sync_ok_env idle_state]
    by simp
qed

text \<open>
  Claim C9, as amended. \<^verbatim>\<open>rsa_check_bit_useful\<close> returns \<^verbatim>\<open>UADK_E_SUCCESS\<close> exactly for
  1024, 2048, 3072 and 4096 bits. Every other size of at least 512 bits makes it return
  \<^verbatim>\<open>SOFT\<close>, and a method whose first check returns \<^verbatim>\<open>SOFT\<close> reaches \<^verbatim>\<open>exe_soft\<close> with
  nothing touched. A size below 512 bits makes it return \<^verbatim>\<open>UADK_E_FAIL\<close>, except a
  negative size together with \<^verbatim>\<open>flen == 0\<close> (what the keygen method passes), which
  the first guard answers with \<^verbatim>\<open>SOFT\<close>.
\<close>

theorem key_size_gate:
  "(rsa_check_bit_useful bits flen = UADK_E_SUCCESS
      \<longleftrightarrow> bits = 1024 \<or> bits = 2048 \<or> bits = 3072 \<or> bits = 4096)
   \<and> (512 \<le> bits \<and> bits \<noteq> 1024 \<and> bits \<noteq> 2048 \<and> bits \<noteq> 3072 \<and> bits \<noteq> 4096
        \<longrightarrow> rsa_check_bit_useful bits flen = SOFT)
   \<and> (rsa_meth_check m a = SOFT \<longrightarrow> rsa_hw_meth m a h e s = Some (Exe_soft, s))
   \<and> (rsa_meth_check m a \<noteq> UADK_E_SUCCESS \<longrightarrow>
        rsa_hw_meth m a h e s = Some (Exe_soft, s)
        \<or> rsa_hw_meth m a h e s = Some (Returned UADK_E_FAIL, s))
   \<and> (bits < 512 \<and> (flen \<noteq> 0 \<or> 0 \<le> bits)
        \<longrightarrow> rsa_check_bit_useful bits flen = UADK_E_FAIL)
   \<and> (bits < 0 \<and> flen = 0 \<longrightarrow> rsa_check_bit_useful bits flen = SOFT)"
  using rsa_check_bit_useful_success_iff [of bits flen]
    rsa_check_bit_useful_soft [of bits flen] rsa_check_bit_useful_small [of bits flen]
    meth_soft_check [of m a h e s] meth_not_attempted [of m a h e s]
  by auto

theorem key_size_gate_witness:
  "rsa_check_bit_useful 2048 16 = UADK_E_SUCCESS
   \<and> rsa_check_bit_useful 7680 16 = SOFT
   \<and> rsa_hw_meth Pub_enc args_7680 steps_ok sync_ok_env idle_state
       = Some (Exe_soft, idle_state)
   \<and> rsa_check_bit_useful 256 16 = UADK_E_FAIL
   \<and> rsa_check_bit_useful 256 0 = UADK_E_FAIL
   \<and> rsa_check_bit_useful (- 1) 0 = SOFT"
  using key_size_gate [of 2048 16 Pub_enc args_7680 steps_ok sync_ok_env idle_state]
    key_size_gate [of 7680 16 Pub_enc args_7680 steps_ok sync_ok_env idle_state]
    key_size_gate [of 256 16 Pub_enc args_7680 steps_ok sync_ok_env idle_state]
    key_size_gate [of 256 0 Pub_enc args_7680 steps_ok sync_ok_env idle_state]
    key_size_gate [of "- 1" 0 Pub_enc args_7680 steps_ok sync_ok_env idle_state]
    meth_check_args_7680 [of Pub_enc]
  by simp

text \<open>
  Claim C9 as stated fails: \<open>-1\<close> is below 512, yet with \<^verbatim>\<open>flen == 0\<close> the result is
  \<^verbatim>\<open>SOFT\<close>, which is not the failure value.
\<close>

theorem key_size_gate_counterexample:
  "(- 1 :: int) < RSA_MIN_MODULUS_BITS \<and> rsa_check_bit_useful (- 1) 0 = SOFT
   \<and> SOFT \<noteq> UADK_E_FAIL"
  by (simp add: rsa_check_bit_useful_def rsa_consts)

end
